theory Spec2Isabelle
  imports Complex_Main
begin

section \<open>Local spatial bivariate statistics of liana: a shallow embedding\<close>

text \<open>
  The development follows \<^verbatim>\<open>liana/method/sp/_spatial_utils.py\<close> and
  \<^verbatim>\<open>liana/method/sp/_bivariate_funs.py\<close>.

  A numpy float is a \<open>real\<close>, and a float that is not finite (NaN or an
  infinity) is \<open>None\<close> of \<open>real option\<close> wherever the source can produce
  one. The functions are first written in exact arithmetic. Where rounding
  decides what the code returns it is modelled as well: the mean of numpy is
  a parameter of the sign categorisation, and the masked engine has a second
  model that rounds every operation as the compiled code does.

  A two-dimensional array is the list of its rows. The functions are written
  for arrays of the shapes the source expects (every row of a matrix has the
  same length, operands of an elementwise operation have the same shape);
  the theorems state the shapes they rely on.
\<close>

type_synonym vec = "real list"
type_synonym matrix = "real list list"

datatype error = AssertionError | ValueError | IndexError | SystemError

subsection \<open>Array helpers\<close>

definition ncols :: "'a list list \<Rightarrow> nat" where
  "ncols m = (case m of [] \<Rightarrow> 0 | r # _ \<Rightarrow> length r)"

definition column :: "'a list list \<Rightarrow> nat \<Rightarrow> 'a list" where
  "column m j = map (\<lambda>r. r ! j) m"

definition rect :: "'a list list \<Rightarrow> nat \<Rightarrow> nat \<Rightarrow> bool" where
  "rect m r c = (length m = r \<and> list_all (\<lambda>row. length row = c) m)"

text \<open>\<^verbatim>\<open>u * v\<close> and \<^verbatim>\<open>sum(u)\<close> on one-dimensional arrays of equal length.\<close>

definition vmul :: "vec \<Rightarrow> vec \<Rightarrow> vec" where
  "vmul u v = map2 (*) u v"

definition vsq :: "vec \<Rightarrow> vec" where
  "vsq u = map (\<lambda>a. a ^ 2) u"

subsection \<open>Floating-point rounding\<close>

text \<open>
  Rounding to the nearest binary floating-point number with \<open>p\<close> significant
  bits, ties to the even one, as IEEE 754 prescribes: \<open>float32\<close> has 24
  bits and \<open>float64\<close> has 53. The exponent range is not modelled, so the
  functions are those of the hardware for numbers that neither overflow nor
  fall below the smallest normal number. \<open>quantum n p a u\<close> searches, in at
  most \<open>n\<close> steps from \<open>u\<close>, the power of two that is the distance between
  neighbouring floats around \<open>a\<close>.
\<close>

definition round_even :: "real \<Rightarrow> int" where
  "round_even x =
     (let f = \<lfloor>x\<rfloor>; d = x - of_int f
      in if d < 1 / 2 then f else if 1 / 2 < d then f + 1 else if even f then f else f + 1)"

fun quantum :: "nat \<Rightarrow> nat \<Rightarrow> real \<Rightarrow> real \<Rightarrow> real" where
  "quantum n p a u =
     (if n = 0 then u
      else if 2 ^ p * u \<le> a then quantum (n - 1) p a (2 * u)
      else if a < 2 ^ (p - 1) * u then quantum (n - 1) p a (u / 2)
      else u)"

declare quantum.simps [simp del]

definition float_round :: "nat \<Rightarrow> real \<Rightarrow> real" where
  "float_round p x =
     (if x = 0 then 0
      else let u = quantum 2200 p \<bar>x\<bar> 1 in of_int (round_even (x / u)) * u)"

definition float32 :: "real \<Rightarrow> real" where
  "float32 = float_round 24"

definition float64 :: "real \<Rightarrow> real" where
  "float64 = float_round 53"

subsection \<open>Sign categorisation\<close>

text \<open>
  \<^verbatim>\<open>_standardize_matrix(mat, local=True)\<close>: \<^verbatim>\<open>mat - mat.mean(axis=0)\<close>, the mean
  of every column subtracted from the column. Only the call with
  \<^verbatim>\<open>local=True\<close>, the one \<^verbatim>\<open>_encode_as_char\<close> makes, is modelled.

  The mean is computed by numpy, outside the repository, in floating point:
  how it rounds depends on the type of the data and on the order of the
  additions. It is the parameter \<open>mean\<close>, a function from the values of a
  column to the mean numpy returns for them. The subtraction is exact here
  where the float subtraction rounds; the difference of two floats is rounded
  to a float of the same sign, and to zero only if they are equal, so the
  signs, which are all that \<^verbatim>\<open>_encode_as_char\<close> uses, are the same.
\<close>

definition col_means :: "(vec \<Rightarrow> real) \<Rightarrow> matrix \<Rightarrow> vec" where
  "col_means mean mat = map (\<lambda>j. mean (column mat j)) [0..<ncols mat]"

definition standardize_matrix :: "(vec \<Rightarrow> real) \<Rightarrow> matrix \<Rightarrow> matrix" where
  "standardize_matrix mean mat = map (\<lambda>r. map2 (-) r (col_means mean mat)) mat"

text \<open>
  Two means to run the functions with: the mean in exact arithmetic, and the
  mean of float64 values as numpy computes it for a column of fewer than
  eight values, every addition and the division rounded to float64.
\<close>

definition exact_mean :: "vec \<Rightarrow> real" where
  "exact_mean xs = sum_list xs / real (length xs)"

definition float64_mean :: "vec \<Rightarrow> real" where
  "float64_mean xs = float64 (foldl (\<lambda>acc v. float64 (acc + v)) 0 xs / real (length xs))"

definition sign_char :: "real \<Rightarrow> string" where
  "sign_char a = (if a > 0 then ''P'' else if a < 0 then ''N'' else ''Z'')"

text \<open>
  \<^verbatim>\<open>_encode_as_char(a)\<close>: the test \<^verbatim>\<open>np.all(a >= 0)\<close> ranges over the whole
  array, not over one column.
\<close>

definition encode_as_char :: "(vec \<Rightarrow> real) \<Rightarrow> matrix \<Rightarrow> string list list" where
  "encode_as_char mean a =
     (let a' = (if list_all (list_all (\<lambda>v. 0 \<le> v)) a then standardize_matrix mean a else a)
      in map (map sign_char) a')"

text \<open>\<^verbatim>\<open>_categorize(x, y)\<close>: elementwise string concatenation.\<close>

definition categorize :: "string list list \<Rightarrow> string list list \<Rightarrow> string list list" where
  "categorize x y = map2 (map2 (@)) x y"

text \<open>
  A cell of the data frame \<^verbatim>\<open>_simplify_cats\<close> works on: a string label, or
  the integer a label was replaced by.
\<close>

datatype cell = Str string | Num int

text \<open>
  \<^verbatim>\<open>df.replace({r'(^*Z*$)': 0, 'NN': 0, 'PP': 1, 'PN': -1, "NP": -1})\<close>.
  \<^verbatim>\<open>DataFrame.replace\<close> is called without \<^verbatim>\<open>regex=True\<close>, so every key of
  the dictionary is compared with the whole cell value as a literal string.
\<close>

definition simplify_table :: "(string \<times> int) list" where
  "simplify_table =
     [(''(^*Z*$)'', 0), (''NN'', 0), (''PP'', 1), (''PN'', -1), (''NP'', -1)]"

fun replace_cell :: "(string \<times> int) list \<Rightarrow> cell \<Rightarrow> cell" where
  "replace_cell tbl (Num n) = Num n"
| "replace_cell tbl (Str s) = (case map_of tbl s of None \<Rightarrow> Str s | Some v \<Rightarrow> Num v)"

definition simplify_cats :: "cell list list \<Rightarrow> cell list list" where
  "simplify_cats df = map (map (replace_cell simplify_table)) df"

subsection \<open>Permutation significance tester\<close>

text \<open>
  The random generator comes from numpy, outside the repository, so it is a
  parameter of the model: \<open>seed_gen\<close> builds a generator state from an
  integer and \<open>perm g n\<close> is \<^verbatim>\<open>rng.permutation(n)\<close>, returning the drawn
  permutation together with the next state. \<^verbatim>\<open>np.random.default_rng(seed)\<close>
  seeds from \<open>seed\<close> when one is given and from fresh entropy of the
  operating system otherwise; that entropy is the argument \<open>entropy\<close>.
\<close>

definition default_rng :: "(nat \<Rightarrow> 'g) \<Rightarrow> nat option \<Rightarrow> nat \<Rightarrow> 'g" where
  "default_rng seed_gen seed entropy =
     (case seed of None \<Rightarrow> seed_gen entropy | Some s \<Rightarrow> seed_gen s)"

text \<open>\<^verbatim>\<open>x_mat[_idx, :]\<close>: the rows at the given indices; an index out of range raises.\<close>

definition take_rows :: "'a list list \<Rightarrow> nat list \<Rightarrow> error + 'a list list" where
  "take_rows m idx =
     (if list_all (\<lambda>i. i < length m) idx then Inr (map (\<lambda>i. m ! i) idx)
      else Inl IndexError)"

text \<open>
  \<^verbatim>\<open>np.array(perm_score >= local_truth, dtype=int)\<close> when \<open>positive_only\<close>,
  \<^verbatim>\<open>np.array(np.abs(perm_score) >= np.abs(local_truth), dtype=int)\<close> otherwise.
\<close>

definition exceeds :: "bool \<Rightarrow> matrix \<Rightarrow> matrix \<Rightarrow> matrix" where
  "exceeds positive_only perm_score local_truth =
     map2 (map2 (\<lambda>p t. if (if positive_only then t \<le> p else \<bar>t\<bar> \<le> \<bar>p\<bar>) then 1 else 0))
       perm_score local_truth"

definition madd :: "matrix \<Rightarrow> matrix \<Rightarrow> matrix" where
  "madd a b = map2 (map2 (+)) a b"

text \<open>
  The loop \<^verbatim>\<open>for i in range(n_perm)\<close>, by the number of iterations left. A
  failure of the statistic function ends the call with that failure.
\<close>

fun perm_loop ::
  "('g \<Rightarrow> nat \<Rightarrow> nat list \<times> 'g) \<Rightarrow> (matrix \<Rightarrow> matrix \<Rightarrow> 'd \<Rightarrow> error + matrix) \<Rightarrow>
   matrix \<Rightarrow> matrix \<Rightarrow> 'd \<Rightarrow> matrix \<Rightarrow> bool \<Rightarrow> nat \<Rightarrow> nat \<Rightarrow> 'g \<Rightarrow> matrix \<Rightarrow> error + matrix"
where
  "perm_loop perm local_fun x_mat y_mat dist_mat local_truth positive_only spot_n 0 g local_pvals =
     Inr local_pvals"
| "perm_loop perm local_fun x_mat y_mat dist_mat local_truth positive_only spot_n (Suc k) g local_pvals =
     (case perm g spot_n of (idx, g') \<Rightarrow>
        (case take_rows x_mat idx of
           Inl e \<Rightarrow> Inl e
         | Inr x_perm \<Rightarrow>
            (case local_fun x_perm y_mat dist_mat of
               Inl e \<Rightarrow> Inl e
             | Inr perm_score \<Rightarrow>
                 perm_loop perm local_fun x_mat y_mat dist_mat local_truth positive_only spot_n k g'
                   (madd local_pvals (exceeds positive_only perm_score local_truth)))))"

text \<open>
  \<^verbatim>\<open>local_pvals / n_perm\<close>: numpy divides by zero without raising and the
  quotient is then not finite (NaN for 0/0, an infinity otherwise).
\<close>

definition np_divide :: "real \<Rightarrow> int \<Rightarrow> real option" where
  "np_divide c n = (if n = 0 then None else Some (c / real_of_int n))"

text \<open>
  \<^verbatim>\<open>pos_msk = ((x_mat > 0) + (y_mat > 0)).T\<close>, the sum of boolean arrays being
  their disjunction, and \<^verbatim>\<open>local_pvals[~pos_msk] = 1\<close>.
\<close>

definition pos_msk :: "matrix \<Rightarrow> matrix \<Rightarrow> bool list list" where
  "pos_msk x_mat y_mat =
     map (\<lambda>j. map (\<lambda>i. 0 < x_mat ! i ! j \<or> 0 < y_mat ! i ! j) [0..<length x_mat])
       [0..<ncols x_mat]"

definition mask_pvals :: "real option list list \<Rightarrow> bool list list \<Rightarrow> real option list list" where
  "mask_pvals local_pvals msk = map2 (map2 (\<lambda>p m. if m then p else Some 1)) local_pvals msk"

definition local_permutation_pvals ::
  "(nat \<Rightarrow> 'g) \<Rightarrow> ('g \<Rightarrow> nat \<Rightarrow> nat list \<times> 'g) \<Rightarrow> nat \<Rightarrow>
   matrix \<Rightarrow> matrix \<Rightarrow> 'd \<Rightarrow> matrix \<Rightarrow> (matrix \<Rightarrow> matrix \<Rightarrow> 'd \<Rightarrow> error + matrix) \<Rightarrow>
   int \<Rightarrow> nat option \<Rightarrow> bool \<Rightarrow> error + real option list list"
where
  "local_permutation_pvals seed_gen perm entropy
       x_mat y_mat dist_mat local_truth local_fun n_perm seed positive_only =
     (let rng = default_rng seed_gen seed entropy;
          xy_n = length local_truth;
          spot_n = ncols local_truth;
          zeros = replicate xy_n (replicate spot_n 0)
      in case perm_loop perm local_fun x_mat y_mat dist_mat local_truth positive_only
                spot_n (nat n_perm) rng zeros of
           Inl e \<Rightarrow> Inl e
         | Inr counts \<Rightarrow>
             (let local_pvals = map (map (\<lambda>c. np_divide c n_perm)) counts
              in Inr (if positive_only then mask_pvals local_pvals (pos_msk x_mat y_mat)
                      else local_pvals)))"

text \<open>
  The permutations of \<open>[0..<n]\<close> that a generator in state \<open>g\<close> yields in
  its next \<open>k\<close> draws.
\<close>

fun draws :: "('g \<Rightarrow> nat \<Rightarrow> nat list \<times> 'g) \<Rightarrow> 'g \<Rightarrow> nat \<Rightarrow> nat \<Rightarrow> nat list list" where
  "draws perm g n 0 = []"
| "draws perm g n (Suc k) = (case perm g n of (idx, g') \<Rightarrow> idx # draws perm g' n k)"

text \<open>
  A generator used to run the tester on concrete inputs: the state is a
  counter and the permutation drawn is a rotation of \<open>[0..<n]\<close> by it.
\<close>

definition rot_perm :: "nat \<Rightarrow> nat \<Rightarrow> nat list \<times> nat" where
  "rot_perm g n = (rotate g [0..<n], Suc g)"

text \<open>A statistic function for such runs: the first column of \<open>x_mat\<close> as the only row.\<close>

definition first_col_fun :: "matrix \<Rightarrow> matrix \<Rightarrow> unit \<Rightarrow> error + matrix" where
  "first_col_fun x_mat y_mat dist_mat = Inr [column x_mat 0]"

subsection \<open>Proximity builder\<close>

text \<open>
  The annotated data object, as far as \<^verbatim>\<open>get_spatial_proximity\<close> uses it:
  the dictionary \<^verbatim>\<open>adata.obsm\<close> and the number of observations
  \<^verbatim>\<open>adata.shape[0]\<close>.
\<close>

record adata =
  obsm :: "string \<Rightarrow> matrix option"
  n_obs :: nat

text \<open>
  \<^verbatim>\<open>squareform(pdist(coordinates, 'euclidean'))\<close>: the matrix of pairwise
  Euclidean distances; \<^verbatim>\<open>squareform\<close> of the empty vector is the 1 by 1
  zero matrix.
\<close>

definition euclidean :: "vec \<Rightarrow> vec \<Rightarrow> real" where
  "euclidean p q = sqrt (sum_list (map2 (\<lambda>a b. (a - b) ^ 2) p q))"

definition pdist_square :: "matrix \<Rightarrow> matrix" where
  "pdist_square coordinates =
     (if coordinates = [] then [[0]]
      else map (\<lambda>p. map (\<lambda>q. euclidean p q) coordinates) coordinates)"

text \<open>
  The chain \<^verbatim>\<open>if family == 'gaussian': ... elif family == 'misty_rbf': ...
  elif family == 'exponential': ... elif family == 'linear': ...\<close>, which has
  no \<^verbatim>\<open>else\<close>: any other family leaves the distances as they are. The
  model is for a parameter other than zero (dividing by a zero parameter gives
  floats that are not finite).
\<close>

definition apply_family :: "string \<Rightarrow> real \<Rightarrow> matrix \<Rightarrow> matrix" where
  "apply_family family parameter proximity =
     (if family = ''gaussian'' then
        map (map (\<lambda>d. exp (- (d ^ 2) / (2 * parameter ^ 2)))) proximity
      else if family = ''misty_rbf'' then
        map (map (\<lambda>d. exp (- (d ^ 2) / (parameter ^ 2)))) proximity
      else if family = ''exponential'' then
        map (map (\<lambda>d. exp (- d / parameter))) proximity
      else if family = ''linear'' then
        map (map (\<lambda>d. let v = 1 - d / parameter in if v < 0 then 0 else v)) proximity
      else proximity)"

definition fill_diagonal :: "matrix \<Rightarrow> real \<Rightarrow> matrix" where
  "fill_diagonal m v = map (\<lambda>i. (m ! i)[i := v]) [0..<length m]"

definition apply_cutoff :: "real \<Rightarrow> matrix \<Rightarrow> matrix" where
  "apply_cutoff cutoff proximity = map (map (\<lambda>v. if v < cutoff then 0 else v)) proximity"

definition families :: "string list" where
  "families = [''gaussian'', ''spatialdm'', ''exponential'', ''linear'']"

text \<open>
  \<^verbatim>\<open>get_spatial_proximity\<close>. The neighbour graph comes from scikit-learn,
  outside the repository: \<open>kneighbors_graph n m\<close> is the 0/1 matrix of
  \<^verbatim>\<open>NearestNeighbors(n_neighbors=n).fit(m).kneighbors_graph(m).toarray()\<close>,
  or the error it raises. \<open>half_precision\<close> is the rounding of
  \<^verbatim>\<open>astype(np.float16)\<close>. The conversion to a sparse matrix keeps every
  value and is not modelled. The data frame of the coordinates needs one row
  for each observation and two columns, and its constructor raises a
  \<^verbatim>\<open>ValueError\<close> otherwise. A call returns the value it returns together
  with the data object after the call.
\<close>

definition get_spatial_proximity ::
  "(nat \<Rightarrow> matrix \<Rightarrow> error + matrix) \<Rightarrow> (real \<Rightarrow> real) \<Rightarrow>
   adata \<Rightarrow> real \<Rightarrow> string \<Rightarrow> real option \<Rightarrow> nat option \<Rightarrow> bool \<Rightarrow> bool \<Rightarrow>
   error + (matrix option \<times> adata)"
where
  "get_spatial_proximity kneighbors_graph half_precision
       adata parameter family cutoff n_neighbors bypass_diagonal inplace =
     (if family \<notin> set families then Inl AssertionError
      else if cutoff = None \<and> n_neighbors = None then Inl ValueError
      else case obsm adata ''spatial'' of
        None \<Rightarrow> Inl AssertionError
      | Some coordinates \<Rightarrow>
          if \<not> rect coordinates (n_obs adata) 2 then Inl ValueError
          else
            let proximity = pdist_square coordinates;
                proximity = apply_family family parameter proximity;
                proximity = (if bypass_diagonal then fill_diagonal proximity 0 else proximity);
                proximity = (case cutoff of None \<Rightarrow> proximity
                             | Some c \<Rightarrow> apply_cutoff c proximity)
            in case (case n_neighbors of
                       None \<Rightarrow> Inr proximity
                     | Some n \<Rightarrow>
                         (case kneighbors_graph n proximity of
                            Inl e \<Rightarrow> Inl e
                          | Inr knn \<Rightarrow> Inr (map2 (map2 (*)) proximity knn))) of
                 Inl e \<Rightarrow> Inl e
               | Inr proximity \<Rightarrow>
                   let spot_n = length proximity in
                   if spot_n \<noteq> n_obs adata then Inl AssertionError
                   else
                     let proximity = (if spot_n > 1000 then map (map half_precision) proximity
                                      else proximity)
                     in Inr (if inplace then None else Some proximity,
                             adata\<lparr>obsm := (obsm adata)(''proximity'' \<mapsto> proximity)\<rparr>))"

subsection \<open>Weighted bivariate statistics: the masked engine\<close>

text \<open>\<^verbatim>\<open>a[msk]\<close>: the entries of \<open>a\<close> where the boolean mask holds.\<close>

definition select :: "bool list \<Rightarrow> 'a list \<Rightarrow> 'a list" where
  "select msk a = map snd (filter fst (zip msk a))"

text \<open>
  \<^verbatim>\<open>np.argsort(a)\<close>: the indices that sort \<open>a\<close>. The sort of the compiled
  code is not stable: where values are equal, the order of their indices is
  not determined by the source. The sort of the float array is therefore the
  parameter \<open>srt\<close>, and \<open>sorts a p\<close> says what is known of its result \<open>p\<close>:
  it is a permutation of the indices of \<open>a\<close>, and the values of \<open>a\<close> ascend
  along it.

  In \<^verbatim>\<open>np.argsort(x).argsort()\<close> the second sort is applied to that
  permutation, an array without equal values, whose sorting indices are
  determined: they are \<open>argsort\<close>. The result is the position of every entry
  of \<open>x\<close> in sorted order, counted from 0.
\<close>

definition sorts :: "'a::linorder list \<Rightarrow> nat list \<Rightarrow> bool" where
  "sorts a p = (sort p = [0..<length a] \<and> sorted (map (\<lambda>i. a ! i) p))"

definition argsort :: "'a::linorder list \<Rightarrow> nat list" where
  "argsort a = map snd (sort_key fst (zip a [0..<length a]))"

definition ordinal_rank :: "(vec \<Rightarrow> nat list) \<Rightarrow> vec \<Rightarrow> vec" where
  "ordinal_rank srt x = map real (argsort (srt x))"

text \<open>
  \<^verbatim>\<open>_wcorr(x, y, w, wsum, rank)\<close>, in exact arithmetic. The power
  \<^verbatim>\<open>denominator**0.5\<close> of a negative float is NaN, and so is the quotient then.
\<close>

definition wcorr ::
  "(vec \<Rightarrow> nat list) \<Rightarrow> vec \<Rightarrow> vec \<Rightarrow> vec \<Rightarrow> real \<Rightarrow> bool \<Rightarrow> real option" where
  "wcorr srt x y w wsum rank =
     (let x = (if rank then ordinal_rank srt x else x);
          y = (if rank then ordinal_rank srt y else y);
          wx = vmul w x;
          wy = vmul w y;
          numerator = wsum * sum_list (vmul wx y) - sum_list wx * sum_list wy;
          denominator_x = wsum * sum_list (vmul w (vsq x)) - (sum_list wx) ^ 2;
          denominator_y = wsum * sum_list (vmul w (vsq y)) - (sum_list wy) ^ 2;
          denominator = denominator_x * denominator_y
      in if denominator = 0 \<or> numerator = 0 then Some 0
         else if denominator < 0 then None
         else Some (numerator / sqrt denominator))"

text \<open>
  \<^verbatim>\<open>_wcoex\<close>: method 0 is Pearson, 1 is Spearman, any other number raises.
  The method is declared \<^verbatim>\<open>nb.int8\<close>: the integer of the caller is cut to
  its lowest 8 bits, read in two's complement, when the compiled function is
  entered; that is \<open>int8\<close>.
\<close>

definition int8 :: "int \<Rightarrow> int" where
  "int8 n = (n + 128) mod 256 - 128"

definition wcoex ::
  "(vec \<Rightarrow> nat list) \<Rightarrow> vec \<Rightarrow> vec \<Rightarrow> vec \<Rightarrow> real \<Rightarrow> int \<Rightarrow> error + real option" where
  "wcoex srt x y w wsum method =
     (if method = 0 then Inr (wcorr srt x y w wsum False)
      else if method = 1 then Inr (wcorr srt x y w wsum True)
      else Inl ValueError)"

text \<open>The results of a loop whose body can raise: the first error, or all the values.\<close>

fun collect :: "(error + 'a) list \<Rightarrow> error + 'a list" where
  "collect [] = Inr []"
| "collect (r # rs) =
     (case r of
        Inl e \<Rightarrow> Inl e
      | Inr v \<Rightarrow> (case collect rs of Inl e \<Rightarrow> Inl e | Inr vs \<Rightarrow> Inr (v # vs)))"

text \<open>
  \<^verbatim>\<open>_masked_coexpressions(x_mat, y_mat, weight, weight_thr, method)\<close>: the
  result has one row for each spot and one column for each entity pair. The
  loop over the spots is a parallel loop, \<^verbatim>\<open>nb.prange\<close>: an exception raised
  in its body does not reach the caller as the exception it was, the call ends
  with a \<^verbatim>\<open>SystemError\<close>.
\<close>

definition masked_coexpressions ::
  "(vec \<Rightarrow> nat list) \<Rightarrow> matrix \<Rightarrow> matrix \<Rightarrow> matrix \<Rightarrow> real \<Rightarrow> int \<Rightarrow>
   error + real option list list" where
  "masked_coexpressions srt x_mat y_mat weight weight_thr method =
     (let method = int8 method;
          spot_n = length x_mat;
          xy_n = ncols x_mat
      in case collect (map (\<lambda>i.
           let w = weight ! i;
               msk = map (\<lambda>v. weight_thr < v) w;
               wsum = sum_list (select msk w)
           in collect (map (\<lambda>j.
                let x = select msk (column x_mat j);
                    y = select msk (column y_mat j)
                in wcoex srt x y (select msk w) wsum method) [0..<xy_n])) [0..<spot_n]) of
           Inl e \<Rightarrow> Inl SystemError
         | Inr local_correlations \<Rightarrow> Inr local_correlations)"

text \<open>
  The same three functions with the rounding of the compiled code. The arrays
  hold float32 values. A product of two arrays and the square of an array are
  float32 arrays: every element is rounded to float32. The builtin \<^verbatim>\<open>sum\<close>
  starts from the integer 0 and adds the elements one by one in float64, and
  the arithmetic on its results is in float64. The sum of the weights is
  passed on as a float32, and the result is returned as a float32. The two
  rounding functions are the parameters \<open>f32\<close> and \<open>f64\<close>: with the identity
  for both, the functions are the ones above.
\<close>

definition fsum :: "(real \<Rightarrow> real) \<Rightarrow> vec \<Rightarrow> real" where
  "fsum f64 v = foldl (\<lambda>acc a. f64 (acc + a)) 0 v"

definition wcorr_rounded ::
  "(real \<Rightarrow> real) \<Rightarrow> (real \<Rightarrow> real) \<Rightarrow> (vec \<Rightarrow> nat list) \<Rightarrow>
   vec \<Rightarrow> vec \<Rightarrow> vec \<Rightarrow> real \<Rightarrow> bool \<Rightarrow> real option" where
  "wcorr_rounded f32 f64 srt x y w wsum rank =
     (let x = (if rank then ordinal_rank srt x else x);
          y = (if rank then ordinal_rank srt y else y);
          wx = map f32 (vmul w x);
          wy = map f32 (vmul w y);
          numerator = f64 (f64 (wsum * fsum f64 (map f32 (vmul wx y)))
                           - f64 (fsum f64 wx * fsum f64 wy));
          denominator_x = f64 (f64 (wsum * fsum f64 (map f32 (vmul w (map f32 (vsq x)))))
                               - f64 ((fsum f64 wx) ^ 2));
          denominator_y = f64 (f64 (wsum * fsum f64 (map f32 (vmul w (map f32 (vsq y)))))
                               - f64 ((fsum f64 wy) ^ 2));
          denominator = f64 (denominator_x * denominator_y)
      in if denominator = 0 \<or> numerator = 0 then Some 0
         else if denominator < 0 then None
         else Some (f32 (f64 (numerator / f64 (sqrt denominator)))))"

definition wcoex_rounded ::
  "(real \<Rightarrow> real) \<Rightarrow> (real \<Rightarrow> real) \<Rightarrow> (vec \<Rightarrow> nat list) \<Rightarrow>
   vec \<Rightarrow> vec \<Rightarrow> vec \<Rightarrow> real \<Rightarrow> int \<Rightarrow> error + real option" where
  "wcoex_rounded f32 f64 srt x y w wsum method =
     (if method = 0 then Inr (wcorr_rounded f32 f64 srt x y w wsum False)
      else if method = 1 then Inr (wcorr_rounded f32 f64 srt x y w wsum True)
      else Inl ValueError)"

definition masked_coexpressions_rounded ::
  "(real \<Rightarrow> real) \<Rightarrow> (real \<Rightarrow> real) \<Rightarrow> (vec \<Rightarrow> nat list) \<Rightarrow>
   matrix \<Rightarrow> matrix \<Rightarrow> matrix \<Rightarrow> real \<Rightarrow> int \<Rightarrow> error + real option list list" where
  "masked_coexpressions_rounded f32 f64 srt x_mat y_mat weight weight_thr method =
     (let method = int8 method;
          spot_n = length x_mat;
          xy_n = ncols x_mat
      in case collect (map (\<lambda>i.
           let w = weight ! i;
               msk = map (\<lambda>v. weight_thr < v) w;
               wsum = f32 (fsum f64 (select msk w))
           in collect (map (\<lambda>j.
                let x = select msk (column x_mat j);
                    y = select msk (column y_mat j)
                in wcoex_rounded f32 f64 srt x y (select msk w) wsum method) [0..<xy_n]))
             [0..<spot_n]) of
           Inl e \<Rightarrow> Inl SystemError
         | Inr local_correlations \<Rightarrow> Inr local_correlations)"

subsection \<open>Weighted bivariate statistics: the vectorized engine\<close>

text \<open>Transposition, the matrix product and elementwise operations of numpy.\<close>

definition mT :: "'a list list \<Rightarrow> 'a list list" where
  "mT m = map (column m) [0..<ncols m]"

definition mdot :: "matrix \<Rightarrow> matrix \<Rightarrow> matrix" where
  "mdot a b = map (\<lambda>r. map (\<lambda>i. sum_list (vmul r (column b i))) [0..<ncols b]) a"

definition mmul :: "matrix \<Rightarrow> matrix \<Rightarrow> matrix" where
  "mmul a b = map2 vmul a b"

definition msub :: "matrix \<Rightarrow> matrix \<Rightarrow> matrix" where
  "msub a b = map2 (map2 (-)) a b"

definition msq :: "matrix \<Rightarrow> matrix" where
  "msq a = map vsq a"

text \<open>\<^verbatim>\<open>a * v\<close> for a matrix and a vector as long as its rows (broadcast over the rows).\<close>

definition row_scale :: "matrix \<Rightarrow> vec \<Rightarrow> matrix" where
  "row_scale a v = map (\<lambda>r. vmul r v) a"

text \<open>
  \<^verbatim>\<open>scipy.stats.rankdata\<close> with its default method: ranks from 1, equal
  values share the average of their ranks.
\<close>

definition rankdata :: "vec \<Rightarrow> vec" where
  "rankdata a =
     map (\<lambda>v. real (length (filter (\<lambda>u. u < v) a))
              + (real (length (filter (\<lambda>u. u = v) a)) + 1) / 2) a"

definition clip :: "real \<Rightarrow> real \<Rightarrow> real \<Rightarrow> real" where
  "clip lo hi v = (if v < lo then lo else if hi < v then hi else v)"

text \<open>
  \<^verbatim>\<open>_vectorized_correlations(x_mat, y_mat, dist, method)\<close>: the result has one
  row for each entity pair and one column for each spot.
\<close>

definition vectorized_correlations ::
  "matrix \<Rightarrow> matrix \<Rightarrow> matrix \<Rightarrow> string \<Rightarrow> error + matrix" where
  "vectorized_correlations x_mat y_mat dist_mat method =
     (if method \<notin> set [''pearson'', ''spearman''] then Inl ValueError
      else
        let x_mat = mT x_mat;
            y_mat = mT y_mat;
            weight = mT dist_mat;
            weight_sums = map (\<lambda>i. sum_list (column weight i)) [0..<ncols weight];
            x_mat = (if method = ''spearman'' then map rankdata x_mat else x_mat);
            y_mat = (if method = ''spearman'' then map rankdata y_mat else y_mat);
            n1 = row_scale (mdot (mmul x_mat y_mat) weight) weight_sums;
            n2 = mmul (mdot x_mat weight) (mdot y_mat weight);
            numerator = msub n1 n2;
            denominator_x = msub (row_scale (mdot (msq x_mat) weight) weight_sums)
                                 (msq (mdot x_mat weight));
            denominator_y = msub (row_scale (mdot (msq y_mat) weight) weight_sums)
                                 (msq (mdot y_mat weight));
            denominator = mmul denominator_x denominator_y;
            denominator = map (map (\<lambda>d. if d < 1 / 10 ^ 6 then 0 else d)) denominator;
            denominator = map (map sqrt) denominator;
            local_corrs = map2 (map2 (\<lambda>n d. if d \<noteq> 0 then n / d else 0)) numerator denominator
        in Inr (map (map (clip (- 1) 1)) local_corrs))"






text \<open>
  The value of one cell of the weighted Pearson statistic, from the values
  \<open>x\<close> and \<open>y\<close> of an entity pair over the spots and the weights \<open>w\<close> of one
  spot: numerator and denominator as both engines compute them, and what
  \<^verbatim>\<open>_vectorized_correlations\<close> makes of them.
\<close>

definition wnumerator :: "vec \<Rightarrow> vec \<Rightarrow> vec \<Rightarrow> real" where
  "wnumerator x y w =
     sum_list w * sum_list (vmul (vmul w x) y) - sum_list (vmul w x) * sum_list (vmul w y)"

definition wdenominator :: "vec \<Rightarrow> vec \<Rightarrow> vec \<Rightarrow> real" where
  "wdenominator x y w =
     (sum_list w * sum_list (vmul w (vsq x)) - (sum_list (vmul w x)) ^ 2)
     * (sum_list w * sum_list (vmul w (vsq y)) - (sum_list (vmul w y)) ^ 2)"

definition vectorized_cell :: "vec \<Rightarrow> vec \<Rightarrow> vec \<Rightarrow> real" where
  "vectorized_cell x y w =
     (let d = sqrt (if wdenominator x y w < 1 / 10 ^ 6 then 0 else wdenominator x y w)
      in clip (- 1) 1 (if d \<noteq> 0 then wnumerator x y w / d else 0))"

section \<open>Theorems\<close>

subsection \<open>Shapes\<close>

lemma rect_nth_length: "rect a r c \<Longrightarrow> i < r \<Longrightarrow> length (a ! i) = c"
  by (simp add: rect_def list_all_length)

lemma rect_length: "rect a r c \<Longrightarrow> length a = r"
  by (simp add: rect_def)

lemma rect_ncols: "rect a r c \<Longrightarrow> 0 < r \<Longrightarrow> ncols a = c"
  by (cases a) (auto simp: rect_def ncols_def)

lemma rectI: "length a = r \<Longrightarrow> (\<And>i. i < r \<Longrightarrow> length (a ! i) = c) \<Longrightarrow> rect a r c"
  by (simp add: rect_def list_all_length)

lemma rect_replicate: "rect (replicate r (replicate c v)) r c"
  by (simp add: rect_def list_all_length)

subsection \<open>Sign categorisation\<close>

lemma sum_list_shift:
  fixes xs :: "real list"
  shows "sum_list (map (\<lambda>x. x - m) xs) = sum_list xs - real (length xs) * m"
  by (induction xs) (simp_all add: algebra_simps)

lemma below_mean_exists:
  fixes xs :: "real list"
  assumes ne: "xs \<noteq> []" and neq: "\<exists>x\<in>set xs. \<exists>y\<in>set xs. x \<noteq> y"
  shows "\<exists>x\<in>set xs. x < sum_list xs / real (length xs)"
proof (rule ccontr)
  let ?m = "sum_list xs / real (length xs)"
  assume "\<not> (\<exists>x\<in>set xs. x < ?m)"
  then have ge: "\<forall>x\<in>set xs. 0 \<le> x - ?m" by force
  have len: "real (length xs) \<noteq> 0" using ne by simp
  have "sum_list (map (\<lambda>x. x - ?m) xs) = sum_list xs - real (length xs) * ?m"
    by (rule sum_list_shift)
  also have "\<dots> = 0" using len by simp
  finally have z: "sum_list (map (\<lambda>x. x - ?m) xs) = 0" .
  have "\<forall>d\<in>set (map (\<lambda>x. x - ?m) xs). d = 0"
    using ge z by (subst sum_list_nonneg_eq_0_iff [symmetric]) auto
  then have "\<forall>x\<in>set xs. x = ?m" by simp
  with neq show False by metis
qed

lemma col_means_nth:
  "rect a r c \<Longrightarrow> 0 < r \<Longrightarrow> j < c \<Longrightarrow> col_means mean a ! j = mean (column a j)"
  by (simp add: col_means_def rect_ncols)

lemma standardize_matrix_nth:
  assumes "rect a r c" "i < r" "j < c"
  shows "standardize_matrix mean a ! i ! j = a ! i ! j - mean (column a j)"
proof -
  have r: "0 < r" using assms by simp
  have la: "length a = r" using assms by (simp add: rect_def)
  have lc: "length (col_means mean a) = c" using assms r by (simp add: col_means_def rect_ncols)
  show ?thesis
    using assms la lc
    by (simp add: standardize_matrix_def rect_nth_length col_means_nth [OF assms(1) r])
qed

lemma encode_as_char_centred:
  assumes "rect a r c" "i < r" "j < c" and nn: "list_all (list_all (\<lambda>v. 0 \<le> v)) a"
  shows "encode_as_char mean a ! i ! j = sign_char (a ! i ! j - mean (column a j))"
proof -
  have la: "length a = r" using assms by (simp add: rect_def)
  have len: "length (standardize_matrix mean a ! i) = c"
    using assms la
    by (simp add: standardize_matrix_def rect_nth_length col_means_def rect_ncols)
  have "encode_as_char mean a ! i ! j = sign_char (standardize_matrix mean a ! i ! j)"
    using assms la len by (simp add: encode_as_char_def standardize_matrix_def)
  then show ?thesis
    by (simp add: standardize_matrix_nth [OF assms(1) assms(2) assms(3)])
qed

lemma encode_as_char_raw:
  assumes "rect a r c" "i < r" "j < c" and neg: "\<not> list_all (list_all (\<lambda>v. 0 \<le> v)) a"
  shows "encode_as_char mean a ! i ! j = sign_char (a ! i ! j)"
  using assms by (simp add: encode_as_char_def rect_length rect_nth_length)

text \<open>
  C9. The claim: for every column whose values are all non-negative,
  \<open>encode_sign\<close> subtracts the column's mean before mapping signs to 'P',
  'N' and 'Z', so that such a column has an 'N' unless it is constant. In the
  code the test for non-negative values is made once on the whole matrix, and
  the mean that is subtracted is the rounded mean numpy computes. The
  statement that holds, at every cell: when every value of the matrix is
  non-negative, the label is the sign of the value minus the computed mean of
  its column; when some value of the matrix is negative, the label is the
  sign of the value itself, in every column; and a column of a non-negative
  matrix that is not constant has at least one 'N' where the computed mean
  is the exact mean of the column.
\<close>

theorem encode_as_char_cells:
  assumes "rect a r c" and "i < r" and "j < c"
  shows "(list_all (list_all (\<lambda>v. 0 \<le> v)) a \<longrightarrow>
            encode_as_char mean a ! i ! j = sign_char (a ! i ! j - mean (column a j)))
       \<and> (\<not> list_all (list_all (\<lambda>v. 0 \<le> v)) a \<longrightarrow>
            encode_as_char mean a ! i ! j = sign_char (a ! i ! j))
       \<and> (list_all (list_all (\<lambda>v. 0 \<le> v)) a
            \<and> mean (column a j) = exact_mean (column a j)
            \<and> (\<exists>k<r. \<exists>l<r. a ! k ! j \<noteq> a ! l ! j) \<longrightarrow>
            (\<exists>k<r. encode_as_char mean a ! k ! j = ''N''))"
proof (intro conjI impI)
  assume "list_all (list_all (\<lambda>v. 0 \<le> v)) a"
  with assms show "encode_as_char mean a ! i ! j = sign_char (a ! i ! j - mean (column a j))"
    by (rule encode_as_char_centred)
next
  assume "\<not> list_all (list_all (\<lambda>v. 0 \<le> v)) a"
  with assms show "encode_as_char mean a ! i ! j = sign_char (a ! i ! j)"
    by (rule encode_as_char_raw)
next
  assume h: "list_all (list_all (\<lambda>v. 0 \<le> v)) a
            \<and> mean (column a j) = exact_mean (column a j)
            \<and> (\<exists>k<r. \<exists>l<r. a ! k ! j \<noteq> a ! l ! j)"
  have la: "length a = r" using assms by (simp add: rect_def)
  from h obtain k l where kl: "k < r" "l < r" "a ! k ! j \<noteq> a ! l ! j" by blast
  have ne: "column a j \<noteq> []" using kl la by (auto simp: column_def)
  have "a ! k ! j \<in> set (column a j)" "a ! l ! j \<in> set (column a j)"
    using kl la by (simp_all add: column_def)
  with kl have "\<exists>x\<in>set (column a j). \<exists>y\<in>set (column a j). x \<noteq> y"
    by blast
  from below_mean_exists [OF ne this]
  obtain x where x: "x \<in> set (column a j)" "x < exact_mean (column a j)"
    unfolding exact_mean_def by blast
  then obtain n where n: "n < r" "x = a ! n ! j"
    using la by (auto simp: column_def in_set_conv_nth)
  from x n h have "a ! n ! j - mean (column a j) < 0" by simp
  moreover have "encode_as_char mean a ! n ! j = sign_char (a ! n ! j - mean (column a j))"
    using assms(1) n(1) assms(3) h by (intro encode_as_char_centred) simp_all
  ultimately have "encode_as_char mean a ! n ! j = ''N''"
    by (simp add: sign_char_def)
  with n show "\<exists>k<r. encode_as_char mean a ! k ! j = ''N''" by blast
qed

lemmas float_round_simps =
  float32_def float64_def float_round_def quantum.simps round_even_def Let_def

text \<open>
  The theorem at two matrices of two spots and two entities, with the mean
  of float64 values: one without a negative value, whose first column is not
  constant and has the exact mean 2, and one with a negative value.
\<close>

theorem encode_as_char_cells_witness:
  "rect [[1, 4], [3, 4 :: real]] 2 2 \<and> (0::nat) < 2
   \<and> list_all (list_all (\<lambda>v. 0 \<le> v)) [[1, 4], [3, 4 :: real]]
   \<and> float64_mean (column [[1, 4], [3, 4]] 0) = exact_mean (column [[1, 4], [3, 4]] 0)
   \<and> encode_as_char float64_mean [[1, 4], [3, 4]] ! 0 ! 0
        = sign_char (1 - float64_mean (column [[1, 4], [3, 4]] 0))
   \<and> (\<exists>k<2. encode_as_char float64_mean [[1, 4], [3, 4]] ! k ! 0 = ''N'')
   \<and> rect [[1, - 1], [2, - 1 :: real]] 2 2
   \<and> \<not> list_all (list_all (\<lambda>v. 0 \<le> v)) [[1, - 1], [2, - 1 :: real]]
   \<and> encode_as_char float64_mean [[1, - 1], [2, - 1]] ! 0 ! 0 = sign_char 1"
proof -
  have h1: "rect [[1, 4], [3, 4 :: real]] 2 2" by (simp add: rect_def)
  have h2: "list_all (list_all (\<lambda>v. 0 \<le> v)) [[1, 4], [3, 4 :: real]]" by simp
  have h3: "(0::nat) < 2" by simp
  have h4: "float64_mean (column [[1, 4], [3, 4]] 0) = exact_mean (column [[1, 4], [3, 4]] 0)"
    by (simp add: float64_mean_def exact_mean_def column_def float_round_simps)
  have d: "\<exists>k<2. \<exists>l<2. [[1, 4], [3, 4 :: real]] ! k ! 0 \<noteq> [[1, 4], [3, 4]] ! l ! 0"
    by (rule exI [of _ 0], simp, rule exI [of _ 1], simp)
  have g1: "rect [[1, - 1], [2, - 1 :: real]] 2 2" by (simp add: rect_def)
  have g2: "\<not> list_all (list_all (\<lambda>v. 0 \<le> v)) [[1, - 1], [2, - 1 :: real]]" by simp
  from encode_as_char_cells [OF h1 h3 h3, of float64_mean] h2 h4 d
  have a: "encode_as_char float64_mean [[1, 4], [3, 4]] ! 0 ! 0
        = sign_char (1 - float64_mean (column [[1, 4], [3, 4]] 0))
     \<and> (\<exists>k<2. encode_as_char float64_mean [[1, 4], [3, 4]] ! k ! 0 = ''N'')"
    by simp
  from encode_as_char_cells [OF g1 h3 h3, of float64_mean] g2
  have b: "encode_as_char float64_mean [[1, - 1], [2, - 1]] ! 0 ! 0 = sign_char 1"
    by simp
  from a b h1 h2 h3 h4 g1 g2 show ?thesis by (intro conjI) simp_all
qed

text \<open>
  A column of non-negative values \<open>[1, 2]\<close> beside a column with a negative
  value: the matrix is not centred, and the first column is all 'P'.
\<close>

theorem encode_as_char_column_counterexample:
  "list_all (\<lambda>v. 0 \<le> v) (column [[1, - 1], [2, - 1 :: real]] 0)
   \<and> column [[1, - 1], [2, - 1 :: real]] 0 = [1, 2]
   \<and> column (encode_as_char float64_mean [[1, - 1], [2, - 1]]) 0 = [''P'', ''P'']"
  by (simp add: encode_as_char_def column_def sign_char_def)

text \<open>
  The rounded mean at work, on float64 values. The sum of 1 and its
  successor \<open>1 + 2\<^sup>-\<^sup>5\<^sup>2\<close> rounds to 2 and the mean is 1: the column
  is not constant and has no 'N'. The sum of three times the float next to
  one tenth rounds up and so does the mean: the column is constant and is
  all 'N'. With the exact mean the labels are 'N', 'P' and three times 'Z'.
\<close>

lemma rounded_mean_examples:
  "encode_as_char float64_mean [[1], [1 + 1 / 2 ^ 52]] = [[''Z''], [''P'']]
   \<and> encode_as_char float64_mean
        [[3602879701896397 / 36028797018963968], [3602879701896397 / 36028797018963968],
         [3602879701896397 / 36028797018963968]] = [[''N''], [''N''], [''N'']]
   \<and> encode_as_char exact_mean [[1], [1 + 1 / 2 ^ 52]] = [[''N''], [''P'']]
   \<and> encode_as_char exact_mean
        [[3602879701896397 / 36028797018963968], [3602879701896397 / 36028797018963968],
         [3602879701896397 / 36028797018963968]] = [[''Z''], [''Z''], [''Z'']]"
  by (simp add: encode_as_char_def standardize_matrix_def col_means_def ncols_def column_def
        sign_char_def float64_mean_def exact_mean_def float_round_simps)

text \<open>
  C4. The claim: \<open>simplify\<close> maps 'PP' to 1, 'PN' and 'NP' to -1, and every
  label containing 'Z' as well as 'NN' to 0. The code replaces 'PP', 'PN',
  'NP' and 'NN' as claimed, and leaves a label that contains 'Z' as the string
  it was: the key written as a regular expression is matched literally.
\<close>

theorem simplify_cats_labels:
  "simplify_cats [[Str ''PP'', Str ''PN'', Str ''NP'', Str ''NN''],
                  [Str ''PZ'', Str ''ZP'', Str ''ZZ'', Str ''NZ'', Str ''ZN'']]
   = [[Num 1, Num (-1), Num (-1), Num 0],
      [Str ''PZ'', Str ''ZP'', Str ''ZZ'', Str ''NZ'', Str ''ZN'']]"
  by (simp add: simplify_cats_def simplify_table_def)

subsection \<open>Permutation significance tester\<close>

lemma rect_madd_exceeds:
  assumes "rect acc r c" "rect ps r c" "rect lt r c"
  shows "rect (madd acc (exceeds po ps lt)) r c"
  using assms
  by (intro rectI) (simp_all add: madd_def exceeds_def rect_length rect_nth_length)

lemma take_rows_rect:
  assumes "rect x s n" "take_rows x idx = Inr xp"
  shows "rect xp (length idx) n"
proof -
  from assms(2) have a: "list_all (\<lambda>i. i < length x) idx" and xp: "xp = map (\<lambda>i. x ! i) idx"
    by (auto simp: take_rows_def split: if_splits)
  show ?thesis
    using assms(1) a by (intro rectI) (simp_all add: xp list_all_length rect_def)
qed

lemma perm_loop_rect:
  assumes f: "\<forall>xp s. rect xp n m \<longrightarrow> local_fun xp y d = Inr s \<longrightarrow> rect s r c"
    and p: "\<forall>g. length (fst (perm g n)) = n"
    and x: "rect x n m" and lt: "rect lt r c"
  shows "rect acc r c \<Longrightarrow> perm_loop perm local_fun x y d lt po n k g acc = Inr counts
           \<Longrightarrow> rect counts r c"
proof (induction k arbitrary: g acc)
  case 0
  then show ?case by simp
next
  case (Suc k)
  obtain idx g' where pg: "perm g n = (idx, g')" by (cases "perm g n")
  with p have li: "length idx = n" by (metis fst_conv)
  from Suc.prems(2) pg obtain xp where xp: "take_rows x idx = Inr xp"
    by (auto split: sum.splits)
  from Suc.prems(2) pg xp obtain ps where ps: "local_fun xp y d = Inr ps"
    by (auto split: sum.splits)
  from Suc.prems(2) pg xp ps
  have run: "perm_loop perm local_fun x y d lt po n k g' (madd acc (exceeds po ps lt)) = Inr counts"
    by simp
  have "rect xp n m" using take_rows_rect [OF x xp] li by simp
  then have "rect ps r c" using f ps by blast
  then have "rect (madd acc (exceeds po ps lt)) r c"
    using Suc.prems(1) lt by (simp add: rect_madd_exceeds)
  from Suc.IH [OF this run] show ?case .
qed

lemma perm_loop_error:
  assumes v: "\<forall>g. list_all (\<lambda>i. i < length x) (fst (perm g n))"
  shows "perm_loop perm local_fun x y d lt po n k g acc = Inl e
           \<Longrightarrow> \<exists>xp. local_fun xp y d = Inl e"
proof (induction k arbitrary: g acc)
  case 0
  then show ?case by simp
next
  case (Suc k)
  obtain idx g' where p: "perm g n = (idx, g')" by (cases "perm g n")
  with v have "list_all (\<lambda>i. i < length x) idx" by (metis fst_conv)
  then have t: "take_rows x idx = Inr (map (\<lambda>i. x ! i) idx)" by (simp add: take_rows_def)
  show ?case
  proof (cases "local_fun (map (\<lambda>i. x ! i) idx) y d")
    case (Inl e')
    with Suc.prems p t have "e' = e" by simp
    with Inl show ?thesis by blast
  next
    case (Inr ps)
    with Suc.prems p t
    have "perm_loop perm local_fun x y d lt po n k g' (madd acc (exceeds po ps lt)) = Inl e"
      by simp
    from Suc.IH [OF this] show ?thesis .
  qed
qed

lemma pos_msk_nth:
  "rect x s n \<Longrightarrow> i < s \<Longrightarrow> j < n \<Longrightarrow>
   pos_msk x y ! j ! i = (0 < x ! i ! j \<or> 0 < y ! i ! j)"
  by (simp add: pos_msk_def rect_ncols rect_length)

lemma pos_msk_rect: "rect x s n \<Longrightarrow> 0 < s \<Longrightarrow> rect (pos_msk x y) n s"
  by (intro rectI) (simp_all add: pos_msk_def rect_ncols rect_length)

text \<open>
  C6. With \<open>positive_only\<close>, the p-value of a cell (entity pair \<open>j\<close>, spot
  \<open>i\<close>) is exactly 1 when the values of \<open>x_mat\<close> and of \<open>y_mat\<close> at that
  spot are both at most 0, and is the count accumulated by the loop divided by
  \<open>n_perm\<close> at every other cell.
\<close>

theorem positive_only_mask:
  assumes run: "local_permutation_pvals seed_gen perm entropy x_mat y_mat dist_mat local_truth
                  local_fun n_perm seed True = Inr pvals"
    and x: "rect x_mat spot_n xy_n" and y: "rect y_mat spot_n xy_n"
    and lt: "rect local_truth xy_n spot_n"
    and f: "\<forall>xp s. rect xp spot_n xy_n \<longrightarrow> local_fun xp y_mat dist_mat = Inr s
              \<longrightarrow> rect s xy_n spot_n"
    and p: "\<forall>g. length (fst (perm g spot_n)) = spot_n"
    and j: "j < xy_n" and i: "i < spot_n"
  shows "\<exists>counts.
           perm_loop perm local_fun x_mat y_mat dist_mat local_truth True spot_n (nat n_perm)
             (default_rng seed_gen seed entropy) (replicate xy_n (replicate spot_n 0)) = Inr counts
         \<and> pvals ! j ! i =
             (if x_mat ! i ! j \<le> 0 \<and> y_mat ! i ! j \<le> 0 then Some 1
              else np_divide (counts ! j ! i) n_perm)"
proof -
  have len: "length local_truth = xy_n" using lt by (rule rect_length)
  have nc: "ncols local_truth = spot_n" using lt j by (simp add: rect_ncols)
  let ?loop = "perm_loop perm local_fun x_mat y_mat dist_mat local_truth True spot_n (nat n_perm)
             (default_rng seed_gen seed entropy) (replicate xy_n (replicate spot_n 0))"
  from run len nc obtain counts where c: "?loop = Inr counts"
    and pv: "pvals = mask_pvals (map (map (\<lambda>c. np_divide c n_perm)) counts) (pos_msk x_mat y_mat)"
    by (auto simp: local_permutation_pvals_def Let_def split: sum.splits)
  have rc: "rect counts xy_n spot_n"
    using perm_loop_rect [OF f p x lt rect_replicate c] .
  have rm: "rect (pos_msk x_mat y_mat) xy_n spot_n"
    using x i by (simp add: pos_msk_rect)
  have "pvals ! j ! i = (if pos_msk x_mat y_mat ! j ! i then np_divide (counts ! j ! i) n_perm else Some 1)"
    using rc rm i j by (simp add: pv mask_pvals_def rect_length rect_nth_length)
  also have "\<dots> = (if x_mat ! i ! j \<le> 0 \<and> y_mat ! i ! j \<le> 0 then Some 1
              else np_divide (counts ! j ! i) n_perm)"
    using x i j by (auto simp: pos_msk_nth)
  finally show ?thesis using c by blast
qed

text \<open>The theorem on three spots and one entity pair, at the spot where both values are negative.\<close>

theorem positive_only_mask_witness:
  "local_permutation_pvals id rot_perm 7 [[1], [-1], [2]] [[0], [-2], [3]] () [[1, 1, 1]]
       first_col_fun 2 (Some 1) True = Inr [[Some (1 / 2), Some 1, Some (1 / 2)]]
   \<and> rect [[1], [-1], [2 :: real]] 3 1 \<and> rect [[0], [-2], [3 :: real]] 3 1
   \<and> rect [[1, 1, 1 :: real]] 1 3
   \<and> (\<exists>counts.
         perm_loop rot_perm first_col_fun [[1], [-1], [2]] [[0], [-2], [3]] () [[1, 1, 1]] True 3
           (nat 2) (default_rng id (Some 1) 7) (replicate 1 (replicate 3 0)) = Inr counts
         \<and> [[Some (1 / 2), Some 1, Some (1 / 2 :: real)]] ! 0 ! 1 = Some 1)"
proof -
  have run: "local_permutation_pvals id rot_perm 7 [[1], [-1], [2]] [[0], [-2], [3]] () [[1, 1, 1]]
       first_col_fun 2 (Some 1) True = Inr [[Some (1 / 2), Some 1, Some (1 / 2)]]"
    by code_simp
  have x: "rect [[1], [-1], [2 :: real]] 3 1" by (simp add: rect_def)
  have y: "rect [[0], [-2], [3 :: real]] 3 1" by (simp add: rect_def)
  have lt: "rect [[1, 1, 1 :: real]] 1 3" by (simp add: rect_def)
  have f: "\<forall>xp s. rect xp 3 1 \<longrightarrow> first_col_fun xp [[0], [-2], [3]] () = Inr s \<longrightarrow> rect s 1 3"
    by (auto simp: first_col_fun_def rect_def column_def)
  have p: "\<forall>g. length (fst (rot_perm g 3)) = 3" by (simp add: rot_perm_def)
  have j: "(0::nat) < 1" and i: "(1::nat) < 3" by simp_all
  from positive_only_mask [OF run x y lt f p j i] run x y lt show ?thesis by simp
qed

lemma perm_loop_draws:
  assumes f: "\<forall>x_perm. local_fun_a x_perm y_mat dist_mat = local_fun_b x_perm y_mat dist_mat"
  shows "draws perm_a g_a spot_n k = draws perm_b g_b spot_n k \<Longrightarrow>
         perm_loop perm_a local_fun_a x_mat y_mat dist_mat local_truth positive_only spot_n k g_a acc
         = perm_loop perm_b local_fun_b x_mat y_mat dist_mat local_truth positive_only spot_n k g_b acc"
proof (induction k arbitrary: g_a g_b acc)
  case 0
  show ?case by simp
next
  case (Suc k)
  obtain i_a h_a where p_a: "perm_a g_a spot_n = (i_a, h_a)" by (cases "perm_a g_a spot_n")
  obtain i_b h_b where p_b: "perm_b g_b spot_n = (i_b, h_b)" by (cases "perm_b g_b spot_n")
  from Suc.prems p_a p_b have i: "i_a = i_b" and d: "draws perm_a h_a spot_n k = draws perm_b h_b spot_n k"
    by simp_all
  show ?case
    using f by (simp add: p_a p_b i Suc.IH [OF d] split: sum.splits)
qed

text \<open>
  C7. Two calls with the same arguments and the same seed return the same
  p-values. A run takes two things from outside its arguments: the generator
  that numpy makes from the seed, and the values that the statistic function
  returns. Of generators made from the same seed numpy promises that they
  draw the same permutations: the first hypothesis says so of the draws the
  tester makes. The second says that the statistic function returns in both
  runs the same values for the same permuted matrix. Then the two runs
  return the same matrix, whatever the entropy of the operating system and
  the internal states of the two generators are: the tester takes nothing
  from its generator but \<open>n_perm\<close> permutations of the spots, and calls the
  statistic function on nothing but the permuted \<open>x_mat\<close> with the \<open>y_mat\<close>
  and the weights it was given.
\<close>

theorem seeded_pvals_deterministic:
  assumes "draws perm_a (seed_gen_a s) (ncols local_truth) (nat n_perm)
           = draws perm_b (seed_gen_b s) (ncols local_truth) (nat n_perm)"
    and "\<forall>x_perm. local_fun_a x_perm y_mat dist_mat = local_fun_b x_perm y_mat dist_mat"
  shows "local_permutation_pvals seed_gen_a perm_a entropy_a x_mat y_mat dist_mat local_truth
             local_fun_a n_perm (Some s) positive_only
         = local_permutation_pvals seed_gen_b perm_b entropy_b x_mat y_mat dist_mat local_truth
             local_fun_b n_perm (Some s) positive_only"
proof -
  have "perm_loop perm_a local_fun_a x_mat y_mat dist_mat local_truth positive_only
          (ncols local_truth) (nat n_perm) (seed_gen_a s)
          (replicate (length local_truth) (replicate (ncols local_truth) 0))
      = perm_loop perm_b local_fun_b x_mat y_mat dist_mat local_truth positive_only
          (ncols local_truth) (nat n_perm) (seed_gen_b s)
          (replicate (length local_truth) (replicate (ncols local_truth) 0))"
    using assms(2) assms(1)
    by (rule perm_loop_draws [where local_fun_a = local_fun_a and local_fun_b = local_fun_b
          and y_mat = y_mat and dist_mat = dist_mat])
  then show ?thesis
    by (simp add: local_permutation_pvals_def default_rng_def Let_def)
qed

text \<open>
  Two generators whose states differ and whose draws agree: counters started
  at the seed and at the seed plus 3, rotating three spots. The two runs,
  with different entropy, return the same p-values.
\<close>

theorem seeded_pvals_deterministic_witness:
  "draws rot_perm (id 1) (ncols [[2, 2, 2 :: real]]) (nat 2)
     = draws rot_perm ((\<lambda>s. s + 3) 1) (ncols [[2, 2, 2 :: real]]) (nat 2)
   \<and> id (1 :: nat) \<noteq> (\<lambda>s. s + 3) 1
   \<and> local_permutation_pvals id rot_perm 0 [[1], [3], [2]] [[0], [0], [0]] () [[2, 2, 2]]
        first_col_fun 2 (Some 1) True
      = local_permutation_pvals (\<lambda>s. s + 3) rot_perm 1 [[1], [3], [2]] [[0], [0], [0]] ()
          [[2, 2, 2]] first_col_fun 2 (Some 1) True
   \<and> local_permutation_pvals id rot_perm 0 [[1], [3], [2]] [[0], [0], [0]] () [[2, 2, 2]]
        first_col_fun 2 (Some 1) True = Inr [[Some 1, Some (1 / 2), Some (1 / 2)]]"
proof -
  have d: "draws rot_perm (id 1) (ncols [[2, 2, 2 :: real]]) (nat 2)
     = draws rot_perm ((\<lambda>s. s + 3) 1) (ncols [[2, 2, 2 :: real]]) (nat 2)"
    by code_simp
  have f: "\<forall>x_perm. first_col_fun x_perm [[0], [0], [0]] () = first_col_fun x_perm [[0], [0], [0]] ()"
    by simp
  have n: "id (1 :: nat) \<noteq> (\<lambda>s. s + 3) 1" by simp
  have v: "local_permutation_pvals id rot_perm 0 [[1], [3], [2]] [[0], [0], [0]] () [[2, 2, 2]]
        first_col_fun 2 (Some 1) True = Inr [[Some 1, Some (1 / 2), Some (1 / 2)]]"
    by code_simp
  from seeded_pvals_deterministic [where seed_gen_a = id and seed_gen_b = "\<lambda>s. s + 3"
      and perm_a = rot_perm and perm_b = rot_perm and s = 1 and n_perm = 2
      and local_truth = "[[2, 2, 2]]" and local_fun_a = first_col_fun
      and local_fun_b = first_col_fun and y_mat = "[[0], [0], [0]]" and dist_mat = "()"
      and entropy_a = 0 and entropy_b = 1 and x_mat = "[[1], [3], [2]]" and positive_only = True,
      OF d f]
  have e: "local_permutation_pvals id rot_perm 0 [[1], [3], [2]] [[0], [0], [0]] () [[2, 2, 2]]
        first_col_fun 2 (Some 1) True
      = local_permutation_pvals (\<lambda>s. s + 3) rot_perm 1 [[1], [3], [2]] [[0], [0], [0]] ()
          [[2, 2, 2]] first_col_fun 2 (Some 1) True" .
  from d n e v show ?thesis by (intro conjI)
qed

text \<open>Without a seed the generator is seeded from that entropy, and two calls can differ.\<close>

lemma unseeded_pvals_depend_on_entropy:
  "local_permutation_pvals id rot_perm 0 [[1], [3], [2]] [[0], [0], [0]] () [[2, 2, 2]]
       first_col_fun 1 None True
   \<noteq> local_permutation_pvals id rot_perm 1 [[1], [3], [2]] [[0], [0], [0]] () [[2, 2, 2]]
       first_col_fun 1 None True"
  by code_simp

text \<open>
  C8. The claim: a call with \<open>n_perm \<le> 0\<close> fails with a configuration
  error before any statistic is computed. The code does not look at
  \<open>n_perm\<close> before the loop. The statement that holds, for inputs of the
  expected shapes and a generator that draws permutations of the spots: with
  \<open>n_perm \<le> 0\<close> the loop body never runs, the statistic function is not
  called and the call returns the zero counts divided by \<open>n_perm\<close> (not
  finite for 0, zero for a negative number), masked as usual; and an error of
  the call is an error the statistic function returned.
\<close>

theorem n_perm_not_validated:
  assumes x: "rect x_mat spot_n xy_n" and y: "rect y_mat spot_n xy_n"
    and lt: "rect local_truth xy_n spot_n"
    and s0: "0 < spot_n" and n0: "0 < xy_n"
    and f: "\<forall>xp s. rect xp spot_n xy_n \<longrightarrow> local_fun xp y_mat dist_mat = Inr s
              \<longrightarrow> rect s xy_n spot_n"
    and p: "\<forall>g. length (fst (perm g spot_n)) = spot_n
              \<and> list_all (\<lambda>i. i < spot_n) (fst (perm g spot_n))"
  shows "(n_perm \<le> 0 \<longrightarrow>
            local_permutation_pvals seed_gen perm entropy x_mat y_mat dist_mat local_truth
                local_fun n_perm seed positive_only
            = (let local_pvals = replicate xy_n (replicate spot_n (np_divide 0 n_perm))
               in Inr (if positive_only then mask_pvals local_pvals (pos_msk x_mat y_mat)
                       else local_pvals)))
       \<and> (local_permutation_pvals seed_gen perm entropy x_mat y_mat dist_mat local_truth
              local_fun n_perm seed positive_only = Inl e \<longrightarrow>
            (\<exists>x_perm. local_fun x_perm y_mat dist_mat = Inl e))"
proof (intro conjI impI)
  have len: "length local_truth = xy_n" using lt by (rule rect_length)
  have nc: "ncols local_truth = spot_n" using lt n0 by (rule rect_ncols)
  have lx: "length x_mat = spot_n" using x by (rule rect_length)
  {
    assume "n_perm \<le> 0"
    then have "nat n_perm = 0" by simp
    then show "local_permutation_pvals seed_gen perm entropy x_mat y_mat dist_mat local_truth
            local_fun n_perm seed positive_only
        = (let local_pvals = replicate xy_n (replicate spot_n (np_divide 0 n_perm))
           in Inr (if positive_only then mask_pvals local_pvals (pos_msk x_mat y_mat)
                   else local_pvals))"
      by (simp add: local_permutation_pvals_def Let_def len nc)
  }
  {
    assume r: "local_permutation_pvals seed_gen perm entropy x_mat y_mat dist_mat local_truth
            local_fun n_perm seed positive_only = Inl e"
    have v: "\<forall>g. list_all (\<lambda>i. i < length x_mat) (fst (perm g spot_n))"
      using p by (simp add: lx)
    from r have "perm_loop perm local_fun x_mat y_mat dist_mat local_truth positive_only
        spot_n (nat n_perm) (default_rng seed_gen seed entropy)
        (replicate xy_n (replicate spot_n 0)) = Inl e"
      by (auto simp: local_permutation_pvals_def Let_def len nc split: sum.splits)
    from perm_loop_error [OF v this] show "\<exists>x_perm. local_fun x_perm y_mat dist_mat = Inl e" .
  }
qed

text \<open>
  The first part at \<open>n_perm = 0\<close>, the second at a statistic function that
  always fails.
\<close>

theorem n_perm_not_validated_witness:
  "rect [[1], [-1], [2 :: real]] 3 1 \<and> rect [[0], [-2], [3 :: real]] 3 1
   \<and> rect [[1, 1, 1 :: real]] 1 3 \<and> (0::int) \<le> 0
   \<and> local_permutation_pvals id rot_perm 7 [[1], [-1], [2]] [[0], [-2], [3]] () [[1, 1, 1]]
       first_col_fun 0 (Some 1) True = Inr [[None, Some 1, None]]
   \<and> local_permutation_pvals id rot_perm 7 [[1], [-1], [2]] [[0], [-2], [3]] () [[1, 1, 1]]
       (\<lambda>x_perm y_mat d. Inl ValueError) 1 (Some 1) True = Inl ValueError
   \<and> (\<exists>x_perm. (\<lambda>x_perm y_mat d. Inl ValueError :: error + matrix) x_perm [[0], [-2], [3 :: real]] ()
          = Inl ValueError)"
proof -
  have x: "rect [[1], [-1], [2 :: real]] 3 1" and y: "rect [[0], [-2], [3 :: real]] 3 1"
    and lt: "rect [[1, 1, 1 :: real]] 1 3" by (simp_all add: rect_def)
  have s0: "(0::nat) < 3" and n0: "(0::nat) < 1" by simp_all
  have f1: "\<forall>xp s. rect xp 3 1 \<longrightarrow> first_col_fun xp [[0], [-2], [3]] () = Inr s \<longrightarrow> rect s 1 3"
    by (auto simp: first_col_fun_def rect_def column_def)
  have f2: "\<forall>xp s. rect xp 3 1 \<longrightarrow> (\<lambda>x_perm y_mat d. Inl ValueError :: error + matrix) xp [[0], [-2], [3 :: real]] () = Inr s
              \<longrightarrow> rect s 1 3"
    by simp
  have p: "\<forall>g. length (fst (rot_perm g 3)) = 3 \<and> list_all (\<lambda>i. i < 3) (fst (rot_perm g 3))"
    by (simp add: rot_perm_def list_all_iff)
  have r: "local_permutation_pvals id rot_perm 7 [[1], [-1], [2]] [[0], [-2], [3]] () [[1, 1, 1]]
       (\<lambda>x_perm y_mat d. Inl ValueError) 1 (Some 1) True = Inl ValueError"
    by code_simp
  have z: "local_permutation_pvals id rot_perm 7 [[1], [-1], [2]] [[0], [-2], [3]] () [[1, 1, 1]]
       first_col_fun 0 (Some 1) True = Inr [[None, Some 1, None]]"
    using n_perm_not_validated [where local_fun = first_col_fun and perm = rot_perm
        and dist_mat = "()" and n_perm = 0 and seed_gen = id and entropy = 7 and seed = "Some 1"
        and positive_only = True, OF x y lt s0 n0 f1 p]
    by (simp add: np_divide_def mask_pvals_def pos_msk_def ncols_def upt_rec numeral_3_eq_3)
  from n_perm_not_validated [where local_fun = "\<lambda>x_perm y_mat d. Inl ValueError"
        and perm = rot_perm and dist_mat = "()" and n_perm = 1 and seed_gen = id and entropy = 7
        and seed = "Some 1" and positive_only = True and e = ValueError, OF x y lt s0 n0 f2 p]
    r z x y lt
  show ?thesis by simp
qed

text \<open>
  \<open>n_perm = 0\<close> and \<open>n_perm = -3\<close> with a statistic function that would
  fail if it were called: the call returns p-values, and raises nothing.
\<close>

theorem n_perm_zero_counterexample:
  "local_permutation_pvals id rot_perm 7 [[1], [-1], [2]] [[0], [-2], [3]] () [[1, 1, 1]]
       (\<lambda>x_perm y_mat d. Inl ValueError) 0 (Some 1) False = Inr [[None, None, None]]
   \<and> local_permutation_pvals id rot_perm 7 [[1], [-1], [2]] [[0], [-2], [3]] () [[1, 1, 1]]
       (\<lambda>x_perm y_mat d. Inl ValueError) (-3) (Some 1) False = Inr [[Some 0, Some 0, Some 0]]"
  by code_simp

subsection \<open>Proximity builder\<close>

text \<open>
  C5. The claim: for the rbf family, accepted by the builder under the name
  'spatialdm', every distance \<open>d\<close> becomes \<open>exp (- d\<^sup>2 / parameter\<^sup>2)\<close>
  before the later steps. The list of accepted families has 'spatialdm', and
  the branch that computes this kernel tests for 'misty_rbf': a call with
  'spatialdm' keeps the distances themselves as weights, and a call with
  'misty_rbf' is rejected. Below, two spots at distance 1 with parameter 1:
  the weight stored is the distance 1, not \<open>exp (- 1)\<close>.
\<close>

theorem spatialdm_kernel_not_applied:
  "apply_family ''spatialdm'' parameter proximity = proximity
   \<and> get_spatial_proximity kneighbors_graph half_precision
        \<lparr>obsm = [''spatial'' \<mapsto> [[0, 0], [1, 0]]], n_obs = 2\<rparr> 1 ''spatialdm'' (Some (1 / 10)) None
        False False
     = Inr (Some [[0, 1], [1, 0]],
            \<lparr>obsm = [''spatial'' \<mapsto> [[0, 0], [1, 0]], ''proximity'' \<mapsto> [[0, 1], [1, 0]]],
             n_obs = 2\<rparr>)
   \<and> [[0, 1], [1, 0]] \<noteq> map (map (\<lambda>d. exp (- (d ^ 2) / (1 ^ 2)))) [[0, 1], [1, 0 :: real]]
   \<and> get_spatial_proximity kneighbors_graph half_precision
        \<lparr>obsm = [''spatial'' \<mapsto> [[0, 0], [1, 0]]], n_obs = 2\<rparr> 1 ''misty_rbf'' (Some (1 / 10)) None
        False False
     = Inl AssertionError"
  by (simp add: apply_family_def get_spatial_proximity_def families_def rect_def
        pdist_square_def euclidean_def apply_cutoff_def Let_def)

lemma proximity_stored_if_returned:
  assumes "get_spatial_proximity kneighbors_graph half_precision
             adata parameter family cutoff n_neighbors bypass_diagonal inplace = Inr (ret, adata')"
  shows "\<exists>proximity.
           obsm adata' ''proximity'' = Some proximity
         \<and> adata' = adata\<lparr>obsm := (obsm adata)(''proximity'' \<mapsto> proximity)\<rparr>
         \<and> ret = (if inplace then None else Some proximity)
         \<and> get_spatial_proximity kneighbors_graph half_precision
             adata parameter family cutoff n_neighbors bypass_diagonal (\<not> inplace)
           = Inr (if inplace then Some proximity else None, adata')"
proof -
  from assms have fam: "family \<in> set families"
    and cn: "\<not> (cutoff = None \<and> n_neighbors = None)"
    by (auto simp: get_spatial_proximity_def split: if_splits)
  from assms fam cn obtain coordinates where co: "obsm adata ''spatial'' = Some coordinates"
    by (cases "obsm adata ''spatial''") (auto simp: get_spatial_proximity_def)
  from assms fam cn co have re: "rect coordinates (n_obs adata) 2"
    by (auto simp: get_spatial_proximity_def split: if_splits)
  define q where "q = (if bypass_diagonal
                 then fill_diagonal (apply_family family parameter (pdist_square coordinates)) 0
                 else apply_family family parameter (pdist_square coordinates))"
  define p0 where "p0 = (case cutoff of None \<Rightarrow> q | Some c \<Rightarrow> apply_cutoff c q)"
  define r where "r = (case n_neighbors of None \<Rightarrow> Inr p0
                     | Some n \<Rightarrow> (case kneighbors_graph n p0 of Inl e \<Rightarrow> Inl e
                                  | Inr knn \<Rightarrow> Inr (map2 (map2 (*)) p0 knn)))"
  have unf: "get_spatial_proximity kneighbors_graph half_precision
             adata parameter family cutoff n_neighbors bypass_diagonal b =
     (case r of Inl e \<Rightarrow> Inl e
      | Inr proximity \<Rightarrow>
          if length proximity \<noteq> n_obs adata then Inl AssertionError
          else Inr (if b then None else Some (if length proximity > 1000 then map (map half_precision) proximity
                                      else proximity),
                    adata\<lparr>obsm := (obsm adata)(''proximity'' \<mapsto>
                       (if length proximity > 1000 then map (map half_precision) proximity
                                      else proximity))\<rparr>))" for b
    unfolding get_spatial_proximity_def Let_def r_def p0_def q_def
    by (simp only: fam cn co re simp_thms if_True if_False option.case)
  from assms obtain p1 where p1: "r = Inr p1"
    by (cases r) (simp_all add: unf)
  from assms p1 have len: "length p1 = n_obs adata"
    by (simp add: unf split: if_splits)
  let ?P = "if length p1 > 1000 then map (map half_precision) p1 else p1"
  from assms p1 len have a: "adata' = adata\<lparr>obsm := (obsm adata)(''proximity'' \<mapsto> ?P)\<rparr>"
    and b: "ret = (if inplace then None else Some ?P)"
    by (simp_all add: unf)
  have c: "get_spatial_proximity kneighbors_graph half_precision
             adata parameter family cutoff n_neighbors bypass_diagonal (\<not> inplace)
           = Inr (if inplace then Some ?P else None, adata')"
    using p1 len a by (simp add: unf)
  have d: "obsm adata' ''proximity'' = Some ?P" by (simp add: a)
  from a b c d show ?thesis by blast
qed

lemma length_pdist_square: "coordinates \<noteq> [] \<Longrightarrow> length (pdist_square coordinates) = length coordinates"
  by (simp add: pdist_square_def)

lemma length_apply_family: "length (apply_family family parameter m) = length m"
  by (simp add: apply_family_def)

lemma length_fill_diagonal: "length (fill_diagonal m v) = length m"
  by (simp add: fill_diagonal_def)

lemma length_apply_cutoff: "length (apply_cutoff c m) = length m"
  by (simp add: apply_cutoff_def)

lemma get_spatial_proximity_returns:
  assumes fam: "family \<in> set families"
    and cn: "cutoff \<noteq> None \<or> n_neighbors \<noteq> None"
    and co: "obsm adata ''spatial'' = Some coordinates"
    and re: "rect coordinates (n_obs adata) 2"
    and n0: "0 < n_obs adata"
    and kn: "\<forall>k m. n_neighbors = Some k \<longrightarrow> (\<exists>g. kneighbors_graph k m = Inr g \<and> length g = length m)"
  shows "\<exists>ret adata'. get_spatial_proximity kneighbors_graph half_precision
             adata parameter family cutoff n_neighbors bypass_diagonal inplace = Inr (ret, adata')"
proof -
  have cn': "\<not> (cutoff = None \<and> n_neighbors = None)" using cn by blast
  define q where "q = (if bypass_diagonal
                 then fill_diagonal (apply_family family parameter (pdist_square coordinates)) 0
                 else apply_family family parameter (pdist_square coordinates))"
  define p0 where "p0 = (case cutoff of None \<Rightarrow> q | Some c \<Rightarrow> apply_cutoff c q)"
  define r where "r = (case n_neighbors of None \<Rightarrow> Inr p0
                     | Some n \<Rightarrow> (case kneighbors_graph n p0 of Inl e \<Rightarrow> Inl e
                                  | Inr knn \<Rightarrow> Inr (map2 (map2 (*)) p0 knn)))"
  have unf: "get_spatial_proximity kneighbors_graph half_precision
             adata parameter family cutoff n_neighbors bypass_diagonal inplace =
     (case r of Inl e \<Rightarrow> Inl e
      | Inr proximity \<Rightarrow>
          if length proximity \<noteq> n_obs adata then Inl AssertionError
          else Inr (if inplace then None else Some (if length proximity > 1000 then map (map half_precision) proximity
                                      else proximity),
                    adata\<lparr>obsm := (obsm adata)(''proximity'' \<mapsto>
                       (if length proximity > 1000 then map (map half_precision) proximity
                                      else proximity))\<rparr>))"
    unfolding get_spatial_proximity_def Let_def r_def p0_def q_def
    by (simp only: fam cn' co re simp_thms if_True if_False option.case)
  have ne: "coordinates \<noteq> []" using re n0 by (auto simp: rect_def)
  have lc: "length coordinates = n_obs adata" using re by (simp add: rect_def)
  have lq: "length q = n_obs adata"
    by (simp add: q_def length_fill_diagonal length_apply_family length_pdist_square [OF ne] lc)
  have lp: "length p0 = n_obs adata"
    by (cases cutoff) (simp_all add: p0_def length_apply_cutoff lq)
  have "\<exists>p1. r = Inr p1 \<and> length p1 = n_obs adata"
  proof (cases n_neighbors)
    case None
    then show ?thesis by (simp add: r_def lp)
  next
    case (Some k)
    with kn obtain g where "kneighbors_graph k p0 = Inr g" "length g = length p0" by blast
    with Some show ?thesis by (simp add: r_def lp)
  qed
  then show ?thesis by (auto simp: unf)
qed

text \<open>
  C10. Every call that returns stores the computed proximity matrix under
  the key 'proximity' of \<^verbatim>\<open>adata.obsm\<close>, whatever \<open>inplace\<close> is, and changes
  nothing else of the data object; \<open>inplace\<close> only decides whether the call
  returns the matrix or \<^verbatim>\<open>None\<close>, so the call with the flag negated leaves
  the same data object behind. And a call returns whenever the family is an
  accepted one, a cutoff or a number of neighbours is given, the coordinates
  are there with two columns and a row for each of at least one observation,
  and the neighbour search succeeds.
\<close>

theorem proximity_always_stored:
  "(get_spatial_proximity kneighbors_graph half_precision
        adata parameter family cutoff n_neighbors bypass_diagonal inplace = Inr (ret, adata') \<longrightarrow>
      (\<exists>proximity.
           obsm adata' ''proximity'' = Some proximity
         \<and> adata' = adata\<lparr>obsm := (obsm adata)(''proximity'' \<mapsto> proximity)\<rparr>
         \<and> ret = (if inplace then None else Some proximity)
         \<and> get_spatial_proximity kneighbors_graph half_precision
             adata parameter family cutoff n_neighbors bypass_diagonal (\<not> inplace)
           = Inr (if inplace then Some proximity else None, adata')))
   \<and> (family \<in> set families \<and> (cutoff \<noteq> None \<or> n_neighbors \<noteq> None)
        \<and> obsm adata ''spatial'' = Some coordinates \<and> rect coordinates (n_obs adata) 2
        \<and> 0 < n_obs adata
        \<and> (\<forall>k m. n_neighbors = Some k \<longrightarrow>
               (\<exists>g. kneighbors_graph k m = Inr g \<and> length g = length m)) \<longrightarrow>
      (\<exists>r a. get_spatial_proximity kneighbors_graph half_precision
                 adata parameter family cutoff n_neighbors bypass_diagonal inplace = Inr (r, a)))"
proof (intro conjI impI)
  assume "get_spatial_proximity kneighbors_graph half_precision
        adata parameter family cutoff n_neighbors bypass_diagonal inplace = Inr (ret, adata')"
  then show "\<exists>proximity.
           obsm adata' ''proximity'' = Some proximity
         \<and> adata' = adata\<lparr>obsm := (obsm adata)(''proximity'' \<mapsto> proximity)\<rparr>
         \<and> ret = (if inplace then None else Some proximity)
         \<and> get_spatial_proximity kneighbors_graph half_precision
             adata parameter family cutoff n_neighbors bypass_diagonal (\<not> inplace)
           = Inr (if inplace then Some proximity else None, adata')"
    by (rule proximity_stored_if_returned)
next
  assume v: "family \<in> set families \<and> (cutoff \<noteq> None \<or> n_neighbors \<noteq> None)
        \<and> obsm adata ''spatial'' = Some coordinates \<and> rect coordinates (n_obs adata) 2
        \<and> 0 < n_obs adata
        \<and> (\<forall>k m. n_neighbors = Some k \<longrightarrow>
               (\<exists>g. kneighbors_graph k m = Inr g \<and> length g = length m))"
  show "\<exists>r a. get_spatial_proximity kneighbors_graph half_precision
                 adata parameter family cutoff n_neighbors bypass_diagonal inplace = Inr (r, a)"
  proof (rule get_spatial_proximity_returns)
    show "family \<in> set families" using v by simp
    show "cutoff \<noteq> None \<or> n_neighbors \<noteq> None" using v by simp
    show "obsm adata ''spatial'' = Some coordinates" using v by simp
    show "rect coordinates (n_obs adata) 2" using v by simp
    show "0 < n_obs adata" using v by simp
    show "\<forall>k m. n_neighbors = Some k \<longrightarrow>
               (\<exists>g. kneighbors_graph k m = Inr g \<and> length g = length m)" using v by simp
  qed
qed

text \<open>Two spots at distance 1, the linear kernel with parameter 2, with and without \<open>inplace\<close>.\<close>

theorem proximity_always_stored_witness:
  "''linear'' \<in> set families \<and> rect [[0, 0], [1, 0 :: real]] 2 2
   \<and> get_spatial_proximity (\<lambda>n m. Inr m) id
       \<lparr>obsm = [''spatial'' \<mapsto> [[0, 0], [1, 0]]], n_obs = 2\<rparr> 2 ''linear'' (Some (1 / 10)) None
       False False
   = Inr (Some [[1, 1 / 2], [1 / 2, 1]],
          \<lparr>obsm = [''spatial'' \<mapsto> [[0, 0], [1, 0]], ''proximity'' \<mapsto> [[1, 1 / 2], [1 / 2, 1]]],
           n_obs = 2\<rparr>)
   \<and> get_spatial_proximity (\<lambda>n m. Inr m) id
       \<lparr>obsm = [''spatial'' \<mapsto> [[0, 0], [1, 0]]], n_obs = 2\<rparr> 2 ''linear'' (Some (1 / 10)) None
       False True
   = Inr (None,
          \<lparr>obsm = [''spatial'' \<mapsto> [[0, 0], [1, 0]], ''proximity'' \<mapsto> [[1, 1 / 2], [1 / 2, 1]]],
           n_obs = 2\<rparr>)
   \<and> (\<exists>r a. get_spatial_proximity (\<lambda>n m. Inr m) id
          \<lparr>obsm = [''spatial'' \<mapsto> [[0, 0], [1, 0]]], n_obs = 2\<rparr> 2 ''linear'' (Some (1 / 10)) None
          False True = Inr (r, a))"
proof -
  let ?a = "\<lparr>obsm = [''spatial'' \<mapsto> [[0, 0], [1, 0 :: real]]], n_obs = 2\<rparr>"
  have run: "get_spatial_proximity (\<lambda>n m. Inr m) id ?a 2 ''linear'' (Some (1 / 10)) None
       False False
   = Inr (Some [[1, 1 / 2], [1 / 2, 1]],
          \<lparr>obsm = [''spatial'' \<mapsto> [[0, 0], [1, 0]], ''proximity'' \<mapsto> [[1, 1 / 2], [1 / 2, 1]]],
           n_obs = 2\<rparr>)"
    by (simp add: apply_family_def get_spatial_proximity_def families_def rect_def
        pdist_square_def euclidean_def apply_cutoff_def Let_def)
  have fam: "''linear'' \<in> set families" by (simp add: families_def)
  have re: "rect [[0, 0], [1, 0 :: real]] 2 2" by (simp add: rect_def)
  have valid: "''linear'' \<in> set families \<and> (Some (1 / 10 :: real) \<noteq> None \<or> (None :: nat option) \<noteq> None)
        \<and> obsm ?a ''spatial'' = Some [[0, 0], [1, 0]] \<and> rect [[0, 0], [1, 0 :: real]] (n_obs ?a) 2
        \<and> 0 < n_obs ?a
        \<and> (\<forall>k m. (None :: nat option) = Some k \<longrightarrow>
               (\<exists>g. (\<lambda>n m. Inr m :: error + matrix) k m = Inr g \<and> length g = length m))"
    using fam re by simp
  note t = proximity_always_stored [where kneighbors_graph = "\<lambda>n m. Inr m" and half_precision = id
      and adata = ?a and parameter = 2 and family = "''linear''" and cutoff = "Some (1 / 10)"
      and n_neighbors = None and bypass_diagonal = False and coordinates = "[[0, 0], [1, 0]]"]
  from t [where inplace = False, THEN conjunct1, rule_format, OF run]
  have stored: "get_spatial_proximity (\<lambda>n m. Inr m) id ?a 2 ''linear'' (Some (1 / 10)) None
       False True
   = Inr (None,
          \<lparr>obsm = [''spatial'' \<mapsto> [[0, 0], [1, 0]], ''proximity'' \<mapsto> [[1, 1 / 2], [1 / 2, 1]]],
           n_obs = 2\<rparr>)"
    by simp
  from t [where inplace = True, THEN conjunct2, rule_format, OF valid]
  have returns: "\<exists>r a. get_spatial_proximity (\<lambda>n m. Inr m) id ?a 2 ''linear'' (Some (1 / 10)) None
          False True = Inr (r, a)" .
  from fam re run stored returns show ?thesis by blast
qed

subsection \<open>Vectors and matrices\<close>

lemma length_vmul: "length (vmul a b) = min (length a) (length b)"
  by (simp add: vmul_def)

lemma vmul_nth: "k < length a \<Longrightarrow> k < length b \<Longrightarrow> vmul a b ! k = a ! k * b ! k"
  by (simp add: vmul_def)

lemma length_vsq: "length (vsq a) = length a"
  by (simp add: vsq_def)

lemma vsq_nth: "k < length a \<Longrightarrow> vsq a ! k = (a ! k) ^ 2"
  by (simp add: vsq_def)

lemma sum_list_nth: "length a = n \<Longrightarrow> sum_list a = (\<Sum>k<n. a ! k)"
  by (simp add: sum_list_sum_nth atLeast0LessThan)

lemma sum_list_vmul:
  "length a = n \<Longrightarrow> length b = n \<Longrightarrow> sum_list (vmul a b) = (\<Sum>k<n. a ! k * b ! k)"
  by (simp add: sum_list_nth [of _ n] length_vmul vmul_nth)

lemma sum_list_vmul3:
  "length a = n \<Longrightarrow> length b = n \<Longrightarrow> length c = n \<Longrightarrow>
   sum_list (vmul (vmul a b) c) = (\<Sum>k<n. a ! k * b ! k * c ! k)"
  by (simp add: sum_list_nth [of _ n] length_vmul vmul_nth)

lemma sum_list_vmul_sq:
  "length a = n \<Longrightarrow> length b = n \<Longrightarrow>
   sum_list (vmul a (vsq b)) = (\<Sum>k<n. a ! k * (b ! k) ^ 2)"
  by (simp add: sum_list_nth [of _ n] length_vmul vmul_nth length_vsq vsq_nth)

lemma sum_list_vmul_sq':
  "length a = n \<Longrightarrow> length b = n \<Longrightarrow>
   sum_list (vmul (vsq b) a) = (\<Sum>k<n. a ! k * (b ! k) ^ 2)"
  by (simp add: sum_list_nth [of _ n] length_vmul vmul_nth length_vsq vsq_nth mult.commute)

lemma length_column: "length (column m j) = length m"
  by (simp add: column_def)

lemma column_nth: "i < length m \<Longrightarrow> column m j ! i = m ! i ! j"
  by (simp add: column_def)

lemma length_mT: "length (mT m) = ncols m"
  by (simp add: mT_def)

lemma mT_nth: "j < ncols m \<Longrightarrow> mT m ! j = column m j"
  by (simp add: mT_def)

lemma rect_mT: "rect m r c \<Longrightarrow> 0 < r \<Longrightarrow> rect (mT m) c r"
  by (intro rectI) (simp_all add: length_mT rect_ncols mT_nth length_column rect_length)

lemma column_mT:
  assumes "rect m r c" "i < r"
  shows "column (mT m) i = m ! i"
proof (rule nth_equalityI)
  have r: "0 < r" using assms by simp
  show "length (column (mT m) i) = length (m ! i)"
    using assms r by (simp add: length_column length_mT rect_ncols rect_nth_length)
  fix k assume "k < length (column (mT m) i)"
  then have k: "k < c" using assms r by (simp add: length_column length_mT rect_ncols)
  then show "column (mT m) i ! k = m ! i ! k"
    using assms r by (simp add: column_nth length_mT rect_ncols mT_nth rect_length)
qed

lemma mdot_nth:
  "j < length a \<Longrightarrow> i < ncols b \<Longrightarrow> mdot a b ! j ! i = sum_list (vmul (a ! j) (column b i))"
  by (simp add: mdot_def)

lemma rect_mdot: "length a = r \<Longrightarrow> rect (mdot a b) r (ncols b)"
  by (intro rectI) (simp_all add: mdot_def)

lemma rect_mmul: "rect a r c \<Longrightarrow> rect b r c \<Longrightarrow> rect (mmul a b) r c"
  by (intro rectI) (simp_all add: mmul_def rect_length rect_nth_length length_vmul)

lemma mmul_nth: "j < length a \<Longrightarrow> j < length b \<Longrightarrow> mmul a b ! j = vmul (a ! j) (b ! j)"
  by (simp add: mmul_def)

lemma rect_msub: "rect a r c \<Longrightarrow> rect b r c \<Longrightarrow> rect (msub a b) r c"
  by (intro rectI) (simp_all add: msub_def rect_length rect_nth_length)

lemma msub_nth:
  "rect a r c \<Longrightarrow> rect b r c \<Longrightarrow> j < r \<Longrightarrow> i < c \<Longrightarrow> msub a b ! j ! i = a ! j ! i - b ! j ! i"
  by (simp add: msub_def rect_length rect_nth_length)

lemma rect_msq: "rect a r c \<Longrightarrow> rect (msq a) r c"
  by (intro rectI) (simp_all add: msq_def rect_length rect_nth_length length_vsq)

lemma msq_nth: "j < length a \<Longrightarrow> msq a ! j = vsq (a ! j)"
  by (simp add: msq_def)

lemma rect_row_scale: "rect a r c \<Longrightarrow> length v = c \<Longrightarrow> rect (row_scale a v) r c"
  by (intro rectI) (simp_all add: row_scale_def rect_length rect_nth_length length_vmul)

lemma row_scale_nth: "j < length a \<Longrightarrow> row_scale a v ! j = vmul (a ! j) v"
  by (simp add: row_scale_def)

lemma length_rankdata: "length (rankdata a) = length a"
  by (simp add: rankdata_def)

lemma rect_map_rows:
  "rect a r c \<Longrightarrow> (\<And>v. length (f v) = length v) \<Longrightarrow> rect (map f a) r c"
  by (intro rectI) (simp_all add: rect_length rect_nth_length)

subsection \<open>The vectorized engine, cell by cell\<close>

lemma vmul_commute: "vmul a b = vmul b a"
  unfolding vmul_def
  by (induction a b rule: list_induct2') (simp_all add: mult.commute)

lemma sum_list_vmul3_rot:
  "length a = n \<Longrightarrow> length b = n \<Longrightarrow> length c = n \<Longrightarrow>
   sum_list (vmul (vmul a b) c) = sum_list (vmul (vmul c a) b)"
  by (simp add: sum_list_vmul3 [of _ n] mult_ac)

lemma vectorized_correlations_cell:
  assumes x: "rect x_mat s n" and y: "rect y_mat s n" and d: "rect dist_mat s s"
    and i: "i < s" and j: "j < n"
    and m: "method = ''pearson'' \<or> method = ''spearman''"
  shows "\<exists>M. vectorized_correlations x_mat y_mat dist_mat method = Inr M \<and> rect M n s \<and>
           M ! j ! i = vectorized_cell
             ((if method = ''spearman'' then rankdata else id) (column x_mat j))
             ((if method = ''spearman'' then rankdata else id) (column y_mat j))
             (dist_mat ! i)"
proof -
  define rk where "rk = (if method = ''spearman'' then rankdata else (id :: vec \<Rightarrow> vec))"
  define X where "X = (if method = ''spearman'' then map rankdata (mT x_mat) else mT x_mat)"
  define Y where "Y = (if method = ''spearman'' then map rankdata (mT y_mat) else mT y_mat)"
  define W where "W = mT dist_mat"
  define ws where "ws = map (\<lambda>i. sum_list (column W i)) [0..<ncols W]"
  define num where "num = msub (row_scale (mdot (mmul X Y) W) ws) (mmul (mdot X W) (mdot Y W))"
  define dx where "dx = msub (row_scale (mdot (msq X) W) ws) (msq (mdot X W))"
  define dy where "dy = msub (row_scale (mdot (msq Y) W) ws) (msq (mdot Y W))"
  define den where "den = map (map sqrt) (map (map (\<lambda>d. if d < 1 / 10 ^ 6 then 0 else d)) (mmul dx dy))"
  define M where "M = map (map (clip (- 1) 1)) (map2 (map2 (\<lambda>n d. if d \<noteq> 0 then n / d else 0)) num den)"
  have s0: "0 < s" using i by simp
  have run: "vectorized_correlations x_mat y_mat dist_mat method = Inr M"
    using m unfolding vectorized_correlations_def Let_def M_def den_def dy_def dx_def num_def
      ws_def W_def X_def Y_def
    by auto
  have rX: "rect X n s"
    using rect_mT [OF x s0] by (auto simp: X_def intro: rect_map_rows length_rankdata)
  have rY: "rect Y n s"
    using rect_mT [OF y s0] by (auto simp: Y_def intro: rect_map_rows length_rankdata)
  have rW: "rect W s s" unfolding W_def using rect_mT [OF d s0] .
  have ncW: "ncols W = s" using rW s0 by (rule rect_ncols)
  have lw: "length ws = s" by (simp add: ws_def ncW)
  have cW: "column W i = dist_mat ! i" unfolding W_def using d i by (rule column_mT)
  have wsi: "ws ! i = sum_list (dist_mat ! i)" using i by (simp add: ws_def ncW cW)
  have ncx: "ncols x_mat = n" using x s0 by (rule rect_ncols)
  have ncy: "ncols y_mat = n" using y s0 by (rule rect_ncols)
  have Xj: "X ! j = rk (column x_mat j)"
    using j by (simp add: X_def rk_def length_mT mT_nth ncx)
  have Yj: "Y ! j = rk (column y_mat j)"
    using j by (simp add: Y_def rk_def length_mT mT_nth ncy)
  define xj yj w where "xj = X ! j" and "yj = Y ! j" and "w = dist_mat ! i"
  have lx: "length xj = s" unfolding xj_def using rX j by (rule rect_nth_length)
  have ly: "length yj = s" unfolding yj_def using rY j by (rule rect_nth_length)
  have lww: "length w = s" unfolding w_def using d i by (rule rect_nth_length)
  have lX: "length X = n" using rX by (rule rect_length)
  have lY: "length Y = n" using rY by (rule rect_length)
  note dot = mdot_nth [where b = W, unfolded ncW cW]
  have r1: "rect (row_scale (mdot (mmul X Y) W) ws) n s"
    using rect_mdot [of "mmul X Y" n W] lX lY lw
    by (intro rect_row_scale) (simp_all add: ncW mmul_def)
  have r2: "rect (mmul (mdot X W) (mdot Y W)) n s"
    using rect_mdot [of X n W] rect_mdot [of Y n W] lX lY
    by (intro rect_mmul) (simp_all add: ncW)
  have rnum: "rect num n s" unfolding num_def using r1 r2 by (rule rect_msub)
  have r3: "rect (row_scale (mdot (msq X) W) ws) n s"
    using rect_mdot [of "msq X" n W] lX lw
    by (intro rect_row_scale) (simp_all add: ncW msq_def)
  have r4: "rect (msq (mdot X W)) n s"
    using rect_mdot [of X n W] lX by (intro rect_msq) (simp add: ncW)
  have rdx: "rect dx n s" unfolding dx_def using r3 r4 by (rule rect_msub)
  have r5: "rect (row_scale (mdot (msq Y) W) ws) n s"
    using rect_mdot [of "msq Y" n W] lY lw
    by (intro rect_row_scale) (simp_all add: ncW msq_def)
  have r6: "rect (msq (mdot Y W)) n s"
    using rect_mdot [of Y n W] lY by (intro rect_msq) (simp add: ncW)
  have rdy: "rect dy n s" unfolding dy_def using r5 r6 by (rule rect_msub)
  have rdd: "rect (mmul dx dy) n s" using rdx rdy by (rule rect_mmul)
  have rden: "rect den n s"
    unfolding den_def using rdd by (intro rectI) (simp_all add: rect_length rect_nth_length)
  have rM: "rect M n s"
    unfolding M_def using rnum rden by (intro rectI) (simp_all add: rect_length rect_nth_length)
  have lmd: "length (mdot A W) = length A" for A by (simp add: mdot_def)
  have lmdj: "length (mdot A W ! j) = s" if "j < length A" for A
    using that by (simp add: mdot_def ncW)
  have md: "mdot A W ! j ! i = sum_list (vmul (A ! j) w)" if "j < length A" for A
    using that i by (simp add: mdot_nth ncW cW w_def)
  have lmm: "length (mmul X Y) = n" by (simp add: mmul_def lX lY)
  have lsx: "length (msq X) = n" and lsy: "length (msq Y) = n" by (simp_all add: msq_def lX lY)
  have a1: "row_scale (mdot (mmul X Y) W) ws ! j ! i = sum_list (vmul (vmul xj yj) w) * sum_list w"
    using i j by (simp add: row_scale_nth lmd lmm vmul_nth lmdj lw md mmul_nth lX lY wsi xj_def yj_def w_def)
  have a2: "mmul (mdot X W) (mdot Y W) ! j ! i = sum_list (vmul xj w) * sum_list (vmul yj w)"
    using i j by (simp add: mmul_nth lmd lX lY vmul_nth lmdj md xj_def yj_def)
  have a3: "row_scale (mdot (msq X) W) ws ! j ! i = sum_list (vmul (vsq xj) w) * sum_list w"
    using i j by (simp add: row_scale_nth lmd lsx vmul_nth lmdj lw md msq_nth lX wsi xj_def w_def)
  have a4: "msq (mdot X W) ! j ! i = (sum_list (vmul xj w)) ^ 2"
    using i j by (simp add: msq_nth lmd lX vsq_nth lmdj md xj_def)
  have a5: "row_scale (mdot (msq Y) W) ws ! j ! i = sum_list (vmul (vsq yj) w) * sum_list w"
    using i j by (simp add: row_scale_nth lmd lsy vmul_nth lmdj lw md msq_nth lY wsi yj_def w_def)
  have a6: "msq (mdot Y W) ! j ! i = (sum_list (vmul yj w)) ^ 2"
    using i j by (simp add: msq_nth lmd lY vsq_nth lmdj md yj_def)
  have numv: "num ! j ! i = wnumerator xj yj w"
    unfolding num_def
    by (simp add: msub_nth [OF r1 r2 j i] a1 a2 wnumerator_def sum_list_vmul3_rot [OF lx ly lww]
          vmul_commute [of w] mult.commute)
  have dxv: "dx ! j ! i = sum_list w * sum_list (vmul w (vsq xj)) - (sum_list (vmul w xj)) ^ 2"
    unfolding dx_def
    by (simp add: msub_nth [OF r3 r4 j i] a3 a4 vmul_commute [of w] mult.commute)
  have dyv: "dy ! j ! i = sum_list w * sum_list (vmul w (vsq yj)) - (sum_list (vmul w yj)) ^ 2"
    unfolding dy_def
    by (simp add: msub_nth [OF r5 r6 j i] a5 a6 vmul_commute [of w] mult.commute)
  have ddv: "mmul dx dy ! j ! i = wdenominator xj yj w"
    using i j rdx rdy
    by (simp add: mmul_nth rect_length rect_nth_length vmul_nth dxv dyv wdenominator_def)
  have Mv: "M ! j ! i = vectorized_cell xj yj w"
    using i j rnum rden rdd
    by (simp add: M_def den_def rect_length rect_nth_length numv ddv vectorized_cell_def Let_def)
  show ?thesis
    using run rM Mv by (simp add: xj_def yj_def w_def Xj Yj rk_def)
qed

subsection \<open>The weighted Cauchy-Schwarz inequality\<close>

lemma quadratic_nonneg_discriminant:
  fixes a b c :: real
  assumes q: "\<And>t. 0 \<le> a + 2 * b * t + c * t\<^sup>2" and c: "0 \<le> c"
  shows "b\<^sup>2 \<le> a * c"
proof (cases "c = 0")
  case True
  have "b = 0"
  proof (rule ccontr)
    assume b: "b \<noteq> 0"
    have "0 \<le> a + 2 * b * (- (a + 1) / (2 * b)) + c * (- (a + 1) / (2 * b))\<^sup>2" by (rule q)
    with True b show False by simp
  qed
  with True show ?thesis by simp
next
  case False
  with c have cp: "0 < c" by simp
  have "0 \<le> a + 2 * b * (- b / c) + c * (- b / c)\<^sup>2" by (rule q)
  also have "a + 2 * b * (- b / c) + c * (- b / c)\<^sup>2 = a - b\<^sup>2 / c"
    using cp by (simp add: power2_eq_square field_simps)
  finally have "b\<^sup>2 / c \<le> a" by simp
  with cp show ?thesis by (simp add: pos_divide_le_eq)
qed

lemma weighted_variance_identity:
  fixes w u :: "nat \<Rightarrow> real"
  shows "(\<Sum>k<n. w k * ((\<Sum>k<n. w k) * u k - (\<Sum>k<n. w k * u k))\<^sup>2)
         = (\<Sum>k<n. w k) * ((\<Sum>k<n. w k) * (\<Sum>k<n. w k * (u k)\<^sup>2) - (\<Sum>k<n. w k * u k)\<^sup>2)"
proof -
  define S U Q where "S = (\<Sum>k<n. w k)" and "U = (\<Sum>k<n. w k * u k)"
    and "Q = (\<Sum>k<n. w k * (u k)\<^sup>2)"
  have "(\<Sum>k<n. w k * (S * u k - U)\<^sup>2)
        = (\<Sum>k<n. S\<^sup>2 * (w k * (u k)\<^sup>2) - 2 * S * U * (w k * u k) + U\<^sup>2 * w k)"
    by (rule sum.cong) (simp_all add: power2_eq_square algebra_simps)
  also have "\<dots> = S\<^sup>2 * Q - 2 * S * U * U + U\<^sup>2 * S"
    by (simp add: sum.distrib sum_subtractf sum_distrib_left [symmetric] S_def U_def Q_def)
  also have "\<dots> = S * (S * Q - U\<^sup>2)"
    by (simp add: power2_eq_square algebra_simps)
  finally show ?thesis by (simp add: S_def U_def Q_def)
qed

lemma weighted_variance_nonneg:
  fixes w u :: "nat \<Rightarrow> real"
  assumes w: "\<forall>k<n. 0 \<le> w k"
  shows "0 \<le> (\<Sum>k<n. w k) * (\<Sum>k<n. w k * (u k)\<^sup>2) - (\<Sum>k<n. w k * u k)\<^sup>2"
proof -
  define S where "S = (\<Sum>k<n. w k)"
  have S: "0 \<le> S" unfolding S_def using w by (intro sum_nonneg) simp
  show ?thesis
  proof (cases "S = 0")
    case True
    then have "\<forall>k\<in>{..<n}. w k = 0"
      unfolding S_def using w by (subst (asm) sum_nonneg_eq_0_iff) auto
    then show ?thesis by simp
  next
    case False
    with S have Sp: "0 < S" by simp
    have "0 \<le> (\<Sum>k<n. w k * (S * u k - (\<Sum>k<n. w k * u k))\<^sup>2)"
      using w by (intro sum_nonneg) simp
    then have "0 \<le> S * (S * (\<Sum>k<n. w k * (u k)\<^sup>2) - (\<Sum>k<n. w k * u k)\<^sup>2)"
      unfolding S_def by (simp only: weighted_variance_identity)
    with Sp show ?thesis unfolding S_def by (simp add: zero_le_mult_iff)
  qed
qed

lemma weighted_cauchy_schwarz_sum:
  fixes w x y :: "nat \<Rightarrow> real"
  assumes w: "\<forall>k<n. 0 \<le> w k"
  shows "((\<Sum>k<n. w k) * (\<Sum>k<n. w k * x k * y k) - (\<Sum>k<n. w k * x k) * (\<Sum>k<n. w k * y k))\<^sup>2
         \<le> ((\<Sum>k<n. w k) * (\<Sum>k<n. w k * (x k)\<^sup>2) - (\<Sum>k<n. w k * x k)\<^sup>2)
           * ((\<Sum>k<n. w k) * (\<Sum>k<n. w k * (y k)\<^sup>2) - (\<Sum>k<n. w k * y k)\<^sup>2)"
proof -
  define S A B P Q R where "S = (\<Sum>k<n. w k)" and "A = (\<Sum>k<n. w k * x k)"
    and "B = (\<Sum>k<n. w k * y k)" and "P = (\<Sum>k<n. w k * x k * y k)"
    and "Q = (\<Sum>k<n. w k * (x k)\<^sup>2)" and "R = (\<Sum>k<n. w k * (y k)\<^sup>2)"
  have c: "0 \<le> S * R - B\<^sup>2"
    unfolding S_def R_def B_def using w by (rule weighted_variance_nonneg)
  have q: "0 \<le> (S * Q - A\<^sup>2) + 2 * (S * P - A * B) * t + (S * R - B\<^sup>2) * t\<^sup>2" for t
  proof -
    have e1: "(\<Sum>k<n. w k * (x k + t * y k)\<^sup>2) = Q + 2 * t * P + t\<^sup>2 * R"
    proof -
      have "(\<Sum>k<n. w k * (x k + t * y k)\<^sup>2)
            = (\<Sum>k<n. w k * (x k)\<^sup>2 + 2 * t * (w k * x k * y k) + t\<^sup>2 * (w k * (y k)\<^sup>2))"
        by (rule sum.cong) (simp_all add: power2_eq_square algebra_simps)
      then show ?thesis
        by (simp add: sum.distrib sum_distrib_left [symmetric] Q_def P_def R_def)
    qed
    have e2: "(\<Sum>k<n. w k * (x k + t * y k)) = A + t * B"
    proof -
      have "(\<Sum>k<n. w k * (x k + t * y k)) = (\<Sum>k<n. w k * x k + t * (w k * y k))"
        by (rule sum.cong) (simp_all add: algebra_simps)
      then show ?thesis by (simp add: sum.distrib sum_distrib_left [symmetric] A_def B_def)
    qed
    have "0 \<le> S * (\<Sum>k<n. w k * (x k + t * y k)\<^sup>2) - (\<Sum>k<n. w k * (x k + t * y k))\<^sup>2"
      unfolding S_def using w by (rule weighted_variance_nonneg)
    also have "\<dots> = (S * Q - A\<^sup>2) + 2 * (S * P - A * B) * t + (S * R - B\<^sup>2) * t\<^sup>2"
      unfolding e1 e2 by (simp add: power2_eq_square algebra_simps)
    finally show ?thesis .
  qed
  from quadratic_nonneg_discriminant [OF q c]
  show ?thesis unfolding S_def A_def B_def P_def Q_def R_def .
qed

lemma wdenominator_factors_nonneg:
  assumes "length x = n" "length w = n" "\<forall>v\<in>set w. 0 \<le> v"
  shows "0 \<le> sum_list w * sum_list (vmul w (vsq x)) - (sum_list (vmul w x))\<^sup>2"
proof -
  have w: "\<forall>k<n. 0 \<le> w ! k" using assms by simp
  show ?thesis
    using weighted_variance_nonneg [OF w, of "\<lambda>k. x ! k"] assms
    by (simp add: sum_list_vmul [of _ n] sum_list_vmul_sq [of _ n] sum_list_nth [of w n])
qed

lemma wdenominator_nonneg:
  assumes "length x = n" "length y = n" "length w = n" "\<forall>v\<in>set w. 0 \<le> v"
  shows "0 \<le> wdenominator x y w"
  unfolding wdenominator_def
  using wdenominator_factors_nonneg [OF assms(1,3,4)] wdenominator_factors_nonneg [OF assms(2,3,4)]
  by (rule mult_nonneg_nonneg)

lemma weighted_cauchy_schwarz:
  assumes "length x = n" "length y = n" "length w = n" "\<forall>v\<in>set w. 0 \<le> v"
  shows "(wnumerator x y w)\<^sup>2 \<le> wdenominator x y w"
proof -
  have w: "\<forall>k<n. 0 \<le> w ! k" using assms by simp
  show ?thesis
    using weighted_cauchy_schwarz_sum [OF w, of "\<lambda>k. x ! k" "\<lambda>k. y ! k"] assms
    by (simp add: wnumerator_def wdenominator_def sum_list_vmul [of _ n] sum_list_vmul_sq [of _ n]
          sum_list_vmul3 [of _ n] sum_list_nth [of w n])
qed

lemma quotient_bounded:
  fixes a d :: real
  assumes "a\<^sup>2 \<le> d" "0 < d"
  shows "- 1 \<le> a / sqrt d \<and> a / sqrt d \<le> 1"
proof -
  have "sqrt (a\<^sup>2) \<le> sqrt d" using assms(1) by (rule real_sqrt_le_mono)
  then have "\<bar>a\<bar> \<le> sqrt d" by simp
  moreover have "0 < sqrt d" using assms(2) by simp
  ultimately have "- sqrt d \<le> a" "a \<le> sqrt d" "0 < sqrt d" by linarith+
  then show ?thesis by (simp add: pos_le_divide_eq pos_divide_le_eq)
qed

subsection \<open>The masked engine, cell by cell\<close>

lemma collect_map:
  "(\<And>a. a \<in> set xs \<Longrightarrow> f a = Inr (g a)) \<Longrightarrow> collect (map f xs) = Inr (map g xs)"
  by (induction xs) simp_all

lemma masked_coexpressions_cell:
  assumes x: "rect x_mat s n" and i: "i < s" and j: "j < n"
    and m: "method = 0 \<or> method = 1"
  shows "\<exists>M. masked_coexpressions srt x_mat y_mat weight weight_thr method = Inr M \<and>
           M ! i ! j = wcorr srt (select (map (\<lambda>v. weight_thr < v) (weight ! i)) (column x_mat j))
                            (select (map (\<lambda>v. weight_thr < v) (weight ! i)) (column y_mat j))
                            (select (map (\<lambda>v. weight_thr < v) (weight ! i)) (weight ! i))
                            (sum_list (select (map (\<lambda>v. weight_thr < v) (weight ! i)) (weight ! i)))
                            (method = 1)"
proof -
  have s0: "0 < s" using i by simp
  have ls: "length x_mat = s" using x by (rule rect_length)
  have nc: "ncols x_mat = n" using x s0 by (rule rect_ncols)
  define cellf where "cellf = (\<lambda>i j.
     wcorr srt (select (map (\<lambda>v. weight_thr < v) (weight ! i)) (column x_mat j))
           (select (map (\<lambda>v. weight_thr < v) (weight ! i)) (column y_mat j))
           (select (map (\<lambda>v. weight_thr < v) (weight ! i)) (weight ! i))
           (sum_list (select (map (\<lambda>v. weight_thr < v) (weight ! i)) (weight ! i)))
           (method = 1))"
  have co: "wcoex srt a b c t (int8 method) = Inr (wcorr srt a b c t (method = 1))" for a b c t
    using m by (auto simp: wcoex_def int8_def)
  have "collect (map (\<lambda>i. collect (map (\<lambda>j. Inr (cellf i j)) [0..<n])) [0..<s])
        = collect (map (\<lambda>i. Inr (map (cellf i) [0..<n])) [0..<s])"
    by (simp add: collect_map [where g = "cellf k" for k])
  also have "\<dots> = Inr (map (\<lambda>i. map (cellf i) [0..<n]) [0..<s])"
    by (simp add: collect_map [where g = "\<lambda>i. map (cellf i) [0..<n]"])
  finally have c: "collect (map (\<lambda>i. collect (map (\<lambda>j. Inr (cellf i j)) [0..<n])) [0..<s])
        = Inr (map (\<lambda>i. map (cellf i) [0..<n]) [0..<s])" .
  have "masked_coexpressions srt x_mat y_mat weight weight_thr method
        = (case collect (map (\<lambda>i. collect (map (\<lambda>j. Inr (cellf i j)) [0..<n])) [0..<s]) of
             Inl e \<Rightarrow> Inl SystemError | Inr local_correlations \<Rightarrow> Inr local_correlations)"
    by (simp add: masked_coexpressions_def Let_def ls nc co cellf_def)
  then have "masked_coexpressions srt x_mat y_mat weight weight_thr method
        = Inr (map (\<lambda>i. map (cellf i) [0..<n]) [0..<s])"
    by (simp add: c)
  moreover have "map (\<lambda>i. map (cellf i) [0..<n]) [0..<s] ! i ! j = cellf i j"
    using i j by simp
  ultimately show ?thesis unfolding cellf_def by blast
qed

lemma select_Cons [simp]:
  "select (b # m) (a # x) = (if b then a # select m x else select m x)"
  by (simp add: select_def)

lemma select_Nil [simp]: "select [] x = []" "select m [] = []"
  by (simp_all add: select_def)

lemma length_select:
  "length x = length w \<Longrightarrow> length (select (map p w) x) = length (filter p w)"
  by (induction x w rule: list_induct2) simp_all

lemma set_select: "set (select m x) \<subseteq> set x"
  by (auto simp: select_def dest: set_zip_rightD)





lemma wcorr_pearson:
  "wcorr srt x y w (sum_list w) False =
     (if wdenominator x y w = 0 \<or> wnumerator x y w = 0 then Some 0
      else if wdenominator x y w < 0 then None
      else Some (wnumerator x y w / sqrt (wdenominator x y w)))"
  by (simp add: wcorr_def wnumerator_def wdenominator_def Let_def)

lemma wcorr_rank:
  "wcorr srt x y w wsum True = wcorr srt (ordinal_rank srt x) (ordinal_rank srt y) w wsum False"
  by (simp add: wcorr_def)

lemma length_argsort: "length (argsort a) = length a"
  by (simp add: argsort_def)


lemma length_ordinal_rank: "length (srt x) = length x \<Longrightarrow> length (ordinal_rank srt x) = length x"
  by (simp add: ordinal_rank_def argsort_def)



lemma wcorr_bounded:
  assumes "length x = length w" "length y = length w" "\<forall>v\<in>set w. 0 \<le> v"
    and "rank \<longrightarrow> length (srt x) = length x \<and> length (srt y) = length y"
  shows "\<exists>v. wcorr srt x y w (sum_list w) rank = Some v \<and> - 1 \<le> v \<and> v \<le> 1"
proof -
  have pearson: "\<exists>v. wcorr srt a b w (sum_list w) False = Some v \<and> - 1 \<le> v \<and> v \<le> 1"
    if a: "length a = length w" and b: "length b = length w" for a b
  proof -
    have cs: "(wnumerator a b w)\<^sup>2 \<le> wdenominator a b w"
      using a b refl assms(3) by (rule weighted_cauchy_schwarz)
    have nn: "0 \<le> wdenominator a b w"
      using a b refl assms(3) by (rule wdenominator_nonneg)
    show ?thesis
    proof (cases "wdenominator a b w = 0 \<or> wnumerator a b w = 0")
      case True
      then show ?thesis by (simp add: wcorr_pearson)
    next
      case False
      with nn have pos: "0 < wdenominator a b w" by simp
      from quotient_bounded [OF cs pos] False pos show ?thesis
        by (simp add: wcorr_pearson)
    qed
  qed
  show ?thesis
  proof (cases rank)
    case True
    then show ?thesis
      using pearson [of "ordinal_rank srt x" "ordinal_rank srt y"] assms
      by (simp add: wcorr_rank length_ordinal_rank)
  next
    case False
    then show ?thesis using pearson [of x y] assms by simp
  qed
qed










lemma vectorized_cell_bounded: "- 1 \<le> vectorized_cell x y w \<and> vectorized_cell x y w \<le> 1"
  by (simp add: vectorized_cell_def clip_def Let_def)

subsection \<open>Cosine and Jaccard at a spot without weights\<close>





subsection \<open>Ranks of values without ties\<close>











subsection \<open>The engines\<close>

lemma masked_lengths:
  assumes x: "rect x_mat s n" and d: "rect weight s s" and i: "i < s"
  shows "length (select (map p (weight ! i)) (column x_mat j))
         = length (select (map p (weight ! i)) (weight ! i))"
  using assms by (simp add: length_select length_column rect_length rect_nth_length)

lemma nonneg_row:
  "list_all (list_all (\<lambda>v. 0 \<le> v)) weight \<Longrightarrow> i < length weight \<Longrightarrow> \<forall>v\<in>set (weight ! i). (0::real) \<le> v"
  by (auto simp: list_all_iff)





text \<open>
  In exact arithmetic every Pearson and Spearman statistic of either engine
  lies in \<open>[-1, 1]\<close> when the weights are non-negative. The vectorized engine
  clips every cell. The masked engine does not clip: there the bound is the
  weighted Cauchy-Schwarz inequality.
\<close>

lemma exact_correlations_in_range:
  assumes x: "rect x_mat s n" and y: "rect y_mat s n" and d: "rect dist_mat s s"
    and nn: "list_all (list_all (\<lambda>v. 0 \<le> v)) dist_mat"
    and i: "i < s" and j: "j < n"
    and m: "method = ''pearson'' \<or> method = ''spearman''"
    and k: "method_k = 0 \<or> method_k = 1"
    and sl: "\<forall>a. length (srt a) = length a"
  shows "(\<exists>V. vectorized_correlations x_mat y_mat dist_mat method = Inr V
             \<and> - 1 \<le> V ! j ! i \<and> V ! j ! i \<le> 1)
       \<and> (\<exists>M v. masked_coexpressions srt x_mat y_mat dist_mat weight_thr method_k = Inr M
             \<and> M ! i ! j = Some v \<and> - 1 \<le> v \<and> v \<le> 1)"
proof
  from vectorized_correlations_cell [OF x y d i j m]
  show "\<exists>V. vectorized_correlations x_mat y_mat dist_mat method = Inr V
             \<and> - 1 \<le> V ! j ! i \<and> V ! j ! i \<le> 1"
    using vectorized_cell_bounded by metis
next
  define p where "p = (\<lambda>v. weight_thr < v)"
  define w where "w = dist_mat ! i"
  have wn: "\<forall>v\<in>set w. 0 \<le> v"
    unfolding w_def using nn i d by (intro nonneg_row) (simp_all add: rect_length)
  have sn: "\<forall>v\<in>set (select (map p w) w). 0 \<le> v"
    using wn set_select [of "map p w" w] by (meson subsetD)
  have lx: "length (select (map p w) (column x_mat j)) = length (select (map p w) w)"
    unfolding w_def using x d i by (rule masked_lengths)
  have ly: "length (select (map p w) (column y_mat j)) = length (select (map p w) w)"
    unfolding w_def using y d i by (rule masked_lengths)
  have rk: "method_k = 1 \<longrightarrow>
      length (srt (select (map p w) (column x_mat j))) = length (select (map p w) (column x_mat j))
      \<and> length (srt (select (map p w) (column y_mat j)))
          = length (select (map p w) (column y_mat j))"
    using sl by simp
  from wcorr_bounded [OF lx ly sn rk]
  obtain v where v: "wcorr srt (select (map p w) (column x_mat j))
      (select (map p w) (column y_mat j))
      (select (map p w) w) (sum_list (select (map p w) w)) (method_k = 1) = Some v"
      "- 1 \<le> v" "v \<le> 1" by blast
  from masked_coexpressions_cell [OF x i j k, of srt y_mat dist_mat weight_thr] v
  show "\<exists>M v. masked_coexpressions srt x_mat y_mat dist_mat weight_thr method_k = Inr M
             \<and> M ! i ! j = Some v \<and> - 1 \<le> v \<and> v \<le> 1"
    unfolding p_def w_def by auto
qed

lemma perfectly_correlated_example:
  "vectorized_correlations [[0], [1]] [[0], [1]] [[1, 1], [1, 1]] ''pearson'' = Inr [[1, 1]]
   \<and> masked_coexpressions srt [[0], [1]] [[0], [1]] [[1, 1], [1, 1]] 0 0
       = Inr [[Some 1], [Some 1]]"
  by (simp add: vectorized_correlations_def ncols_def mT_def mdot_def mmul_def msub_def msq_def
        row_scale_def clip_def column_def vmul_def vsq_def Let_def upt_rec power2_eq_square
        masked_coexpressions_def int8_def wcoex_def wcorr_def select_def)

text \<open>The vectorized engine clips every cell, whatever the shapes and the weights.\<close>

lemma if_else_Inr: "(if c then Inl e else Inr v) = Inr V \<Longrightarrow> V = v"
  by (simp split: if_splits)

lemma vectorized_all_clipped:
  assumes "vectorized_correlations x_mat y_mat dist_mat method = Inr V"
  shows "\<forall>row\<in>set V. \<forall>v\<in>set row. - 1 \<le> v \<and> v \<le> 1"
proof -
  from assms [unfolded vectorized_correlations_def Let_def, THEN if_else_Inr]
  obtain L where "V = map (map (clip (- 1) 1)) L" by blast
  then show ?thesis by (auto simp: clip_def)
qed

text \<open>
  With the identity for both roundings the rounding model of the masked
  engine is the model in exact arithmetic.
\<close>

lemma foldl_add_sum_list: "foldl (\<lambda>acc a. acc + a) s v = s + sum_list (v :: vec)"
  by (induction v arbitrary: s) simp_all

lemma fsum_id: "fsum id v = sum_list v"
  by (simp add: fsum_def foldl_add_sum_list)

lemma wcorr_rounded_id: "wcorr_rounded id id srt x y w wsum rank = wcorr srt x y w wsum rank"
  by (simp add: wcorr_rounded_def wcorr_def fsum_id Let_def)

lemma wcoex_rounded_id: "wcoex_rounded id id srt x y w wsum method = wcoex srt x y w wsum method"
  by (simp add: wcoex_rounded_def wcoex_def wcorr_rounded_id)

lemma masked_coexpressions_rounded_id:
  "masked_coexpressions_rounded id id srt x_mat y_mat weight weight_thr method
   = masked_coexpressions srt x_mat y_mat weight weight_thr method"
  by (simp add: masked_coexpressions_rounded_def masked_coexpressions_def wcoex_rounded_id
        fsum_id Let_def)

text \<open>
  The rounded statistic of two spots with the weights \<open>[1, 3/8]\<close> and
  \<open>[3/8, 1]\<close>, for an entity pair with the same float32 values, those next
  to 0.9 and 1.1, on both sides: every operation in its order, with the value
  it rounds to.
\<close>

lemma wcorr_rounded_cell0:
  "wcorr_rounded float32 float64 srt [7549747 / 8388608, 9227469 / 8388608]
      [7549747 / 8388608, 9227469 / 8388608] [1, 3 / 8] (11 / 8) False
   = Some (8388631 / 8388608)"
proof -
  have wx: "map float32 (vmul [1, 3 / 8] [7549747 / 8388608, 9227469 / 8388608]) = [7549747 / 8388608, 3460301 / 8388608]"
    by (simp add: vmul_def float_round_simps)
  have wxy: "map float32 (vmul [7549747 / 8388608, 3460301 / 8388608] [7549747 / 8388608, 9227469 / 8388608]) = [1698693 / 2097152, 15225325 / 33554432]"
    by (simp add: vmul_def float_round_simps)
  have s1: "fsum float64 [1698693 / 2097152, 15225325 / 33554432] = 42404413 / 33554432"
    by (simp add: fsum_def float_round_simps)
  have s2: "fsum float64 [7549747 / 8388608, 3460301 / 8388608] = 21 / 16"
    by (simp add: fsum_def float_round_simps)
  have num: "float64 (float64 (11 / 8 * (42404413 / 33554432)) - float64 (21 / 16 * (21 / 16))) = 4026527 / 268435456"
    by (simp add: float_round_simps)
  have x2: "map float32 (vsq [7549747 / 8388608, 9227469 / 8388608]) = [1698693 / 2097152, 1268777 / 1048576]"
    by (simp add: vsq_def float_round_simps power2_eq_square)
  have wx2: "map float32 (vmul [1, 3 / 8] [1698693 / 2097152, 1268777 / 1048576]) = [1698693 / 2097152, 3806331 / 8388608]"
    by (simp add: vmul_def float_round_simps)
  have s3: "fsum float64 [1698693 / 2097152, 3806331 / 8388608] = 10601103 / 8388608"
    by (simp add: fsum_def float_round_simps)
  have dx: "float64 (float64 (11 / 8 * (10601103 / 8388608)) - float64 ((21 / 16)\<^sup>2)) = 1006629 / 67108864"
    by (simp add: float_round_simps power2_eq_square)
  have den: "float64 (1006629 / 67108864 * (1006629 / 67108864)) = 1013301943641 / 4503599627370496"
    by (simp add: float_round_simps)
  have sq: "sqrt (1013301943641 / 4503599627370496) = 1006629 / 67108864"
    by (rule real_sqrt_unique) (simp_all add: power2_eq_square)
  have fl: "float64 (1006629 / 67108864) = 1006629 / 67108864"
    by (simp add: float_round_simps)
  have rt: "float64 (sqrt (1013301943641 / 4503599627370496)) = 1006629 / 67108864"
    by (simp only: sq fl)
  have res: "float32 (float64 (4026527 / 268435456 / (1006629 / 67108864))) = 8388631 / 8388608"
    by (simp add: float_round_simps)
  show ?thesis
    unfolding wcorr_rounded_def Let_def if_False wx wxy s1 s2 num x2 wx2 s3 dx den rt res
    by simp
qed

lemma wcorr_rounded_cell1:
  "wcorr_rounded float32 float64 srt [7549747 / 8388608, 9227469 / 8388608]
      [7549747 / 8388608, 9227469 / 8388608] [3 / 8, 1] (11 / 8) False
   = Some (1)"
proof -
  have wx: "map float32 (vmul [3 / 8, 1] [7549747 / 8388608, 9227469 / 8388608]) = [2831155 / 8388608, 9227469 / 8388608]"
    by (simp add: vmul_def float_round_simps)
  have wxy: "map float32 (vmul [2831155 / 8388608, 9227469 / 8388608] [7549747 / 8388608, 9227469 / 8388608]) = [5096079 / 16777216, 1268777 / 1048576]"
    by (simp add: vmul_def float_round_simps)
  have s1: "fsum float64 [5096079 / 16777216, 1268777 / 1048576] = 25396511 / 16777216"
    by (simp add: fsum_def float_round_simps)
  have s2: "fsum float64 [2831155 / 8388608, 9227469 / 8388608] = 23 / 16"
    by (simp add: fsum_def float_round_simps)
  have num: "float64 (float64 (11 / 8 * (25396511 / 16777216)) - float64 (23 / 16 * (23 / 16))) = 2013269 / 134217728"
    by (simp add: float_round_simps)
  have x2: "map float32 (vsq [7549747 / 8388608, 9227469 / 8388608]) = [1698693 / 2097152, 1268777 / 1048576]"
    by (simp add: vsq_def float_round_simps power2_eq_square)
  have wx2: "map float32 (vmul [3 / 8, 1] [1698693 / 2097152, 1268777 / 1048576]) = [5096079 / 16777216, 1268777 / 1048576]"
    by (simp add: vmul_def float_round_simps)
  have s3: "fsum float64 [5096079 / 16777216, 1268777 / 1048576] = 25396511 / 16777216"
    by (simp add: fsum_def float_round_simps)
  have dx: "float64 (float64 (11 / 8 * (25396511 / 16777216)) - float64 ((23 / 16)\<^sup>2)) = 2013269 / 134217728"
    by (simp add: float_round_simps power2_eq_square)
  have den: "float64 (2013269 / 134217728 * (2013269 / 134217728)) = 4053252066361 / 18014398509481984"
    by (simp add: float_round_simps)
  have sq: "sqrt (4053252066361 / 18014398509481984) = 2013269 / 134217728"
    by (rule real_sqrt_unique) (simp_all add: power2_eq_square)
  have fl: "float64 (2013269 / 134217728) = 2013269 / 134217728"
    by (simp add: float_round_simps)
  have rt: "float64 (sqrt (4053252066361 / 18014398509481984)) = 2013269 / 134217728"
    by (simp only: sq fl)
  have res: "float32 (float64 (2013269 / 134217728 / (2013269 / 134217728))) = 1"
    by (simp add: float_round_simps)
  show ?thesis
    unfolding wcorr_rounded_def Let_def if_False wx wxy s1 s2 num x2 wx2 s3 dx den rt res
    by simp
qed

lemma masked_rounded_wsum: "float32 (fsum float64 [1, 3 / 8]) = 11 / 8"
  "float32 (fsum float64 [3 / 8, 1]) = 11 / 8"
  by (simp_all add: fsum_def float_round_simps)


text \<open>
  C3. The claim: every Pearson and Spearman statistic returned by either
  engine lies in \<open>[-1, 1]\<close>, for every input. The vectorized engine clips
  its result. The masked engine returns the quotient as it is rounded and
  does not clip: for two spots with the symmetric weights 1 and 3/8 and an
  entity pair with the float32 values next to 0.9 and 1.1 on both sides, its
  Pearson statistic at the first spot is \<open>1 + 23 / 2\<^sup>2\<^sup>3\<close>, above 1. In
  exact arithmetic the statistic is 1 at both spots.
\<close>

theorem masked_engine_exceeds_one:
  "masked_coexpressions_rounded float32 float64 argsort
       [[7549747 / 8388608], [9227469 / 8388608]] [[7549747 / 8388608], [9227469 / 8388608]]
       [[1, 3 / 8], [3 / 8, 1]] 0 0
   = Inr [[Some (8388631 / 8388608)], [Some 1]]
   \<and> (1 :: real) < 8388631 / 8388608"
  by (simp add: masked_coexpressions_rounded_def int8_def ncols_def column_def Let_def upt_rec
        wcoex_rounded_def masked_rounded_wsum wcorr_rounded_cell0 wcorr_rounded_cell1)


lemma masked_engine_exact_example:
  "masked_coexpressions srt
       [[7549747 / 8388608], [9227469 / 8388608]] [[7549747 / 8388608], [9227469 / 8388608]]
       [[1, 3 / 8], [3 / 8, 1]] 0 0
   = Inr [[Some 1], [Some 1]]"
proof -
  have sq: "sqrt (4456588391558723537433369 / 19807040628566084398385987584) = 2111063331963 / 140737488355328"
    by (rule real_sqrt_unique) (simp_all add: power2_eq_square)
  show ?thesis
    by (simp add: masked_coexpressions_def int8_def ncols_def wcoex_def wcorr_def select_def
        column_def vmul_def vsq_def Let_def upt_rec power2_eq_square sq)
qed







text \<open>
  Equal values. The sorting indices of \<open>[1, 1, 2]\<close> are \<open>[0, 1, 2]\<close> or
  \<open>[1, 0, 2]\<close>; with either the masked engine gives the two equal values
  the ranks 0 and 1, where \<open>rankdata\<close> gives both the average of their
  ranks.
\<close>

lemma ranks_of_equal_values:
  "sorts [1, 1, 2 :: real] [0, 1, 2] \<and> sorts [1, 1, 2 :: real] [1, 0, 2]
   \<and> ordinal_rank (\<lambda>a. [0, 1, 2]) [1, 1, 2] = [0, 1, 2]
   \<and> ordinal_rank (\<lambda>a. [1, 0, 2]) [1, 1, 2] = [1, 0, 2]
   \<and> rankdata [1, 1, 2] = [3 / 2, 3 / 2, 3]"
  by code_simp

end
